theory Spec2Isabelle
  imports Main
begin

section \<open>Shared vocabulary of the read handlers\<close>

text \<open>
  A Go \<open>error\<close> is represented by the text its \<open>Error()\<close> method yields; a nil error is
  \<open>None\<close>. \<open>fmt.Errorf\<close> with a \<open>%s\<close> verb splices that text into the format string.
\<close>

type_synonym error = string

text \<open>The dynamically typed values the handlers hand to \<open>d.Set\<close> (Go \<open>interface{}\<close>).\<close>

datatype tfvalue =
    VNil
  | VBool bool
  | VInt int
  | VStr string
  | VStrs "string list"
  | VList "tfvalue list"
  | VMap "(string \<times> tfvalue) list"
  | VOther string

text \<open>
  \<open>schema.ResourceData\<close>: the resource ID given to \<open>SetId\<close> (\<open>None\<close> while \<open>SetId\<close> has not
  been called) and the attribute store written by \<open>d.Set\<close>.
\<close>

record ResourceData =
  rid :: "string option"
  attrs :: "string \<rightharpoonup> tfvalue"

definition SetId :: "string \<Rightarrow> ResourceData \<Rightarrow> ResourceData" where
  "SetId s d = d\<lparr>rid := Some s\<rparr>"

definition d_Set :: "string \<Rightarrow> tfvalue \<Rightarrow> ResourceData \<Rightarrow> ResourceData" where
  "d_Set k v d = d\<lparr>attrs := (attrs d)(k \<mapsto> v)\<rparr>"

text \<open>
  Diagnostics are kept as the call that built them: \<open>diag.FromErr(err)\<close>, whose summary is
  the text of \<open>err\<close>, and \<open>flex.TerraformErrorf(err, message, resource, operation).GetDiag()\<close>.
  A nil \<open>diag.Diagnostics\<close> is the empty list.
\<close>

datatype diagnostic =
    FromErr error
  | TerraformErrorf error string string string

type_synonym diagnostics = "diagnostic list"

text \<open>A Go function either returns or panics.\<close>

datatype 'a outcome = Returned 'a | Panicked string

definition nil_dereference :: string where
  "nil_dereference = ''runtime error: invalid memory address or nil pointer dereference''"

text \<open>
  \<open>d.Get\<close> yields the zero value of the attribute's type when it is not set; \<open>d.GetOk\<close>
  also tells whether the value is set to something other than the zero value.
\<close>

definition Get_string :: "ResourceData \<Rightarrow> string \<Rightarrow> string" where
  "Get_string d k = (case attrs d k of Some (VStr s) \<Rightarrow> s | _ \<Rightarrow> [])"

definition Get_int :: "ResourceData \<Rightarrow> string \<Rightarrow> int" where
  "Get_int d k = (case attrs d k of Some (VInt n) \<Rightarrow> n | _ \<Rightarrow> 0)"

definition GetOk :: "ResourceData \<Rightarrow> string \<Rightarrow> string \<times> bool" where
  "GetOk d k = (Get_string d k, Get_string d k \<noteq> [])"

text \<open>\<open>strings.Split\<close> on a one-character separator.\<close>

fun Split :: "string \<Rightarrow> char \<Rightarrow> string list" where
  "Split [] sep = [[]]"
| "Split (c # cs) sep =
     (if c = sep then [] # Split cs sep
      else (case Split cs sep of [] \<Rightarrow> [[c]] | p # ps \<Rightarrow> (c # p) # ps))"

section \<open>The key-protect data source (dataSourceIBMKMSKeyRead)\<close>

record Key =
  ID :: string
  Name :: string
  CRN :: string
  Extractable :: bool
  Aliases :: "string list"
  KeyRingID :: string

record KeysMetadata =
  NumberOfKeys :: int

record Keys =
  Metadata :: KeysMetadata
  Keys :: "Key list"

text \<open>A key policy is only counted and handed on to \<open>flex.FlattenKeyPolicies\<close>.\<close>

datatype Policy = Policy string

record ResourceInstance =
  Extensions :: string

text \<open>
  Every call of a cloud SDK operation is recorded, with its arguments and its answer, in
  the order the handler makes them.
\<close>

datatype event =
    GetResourceInstanceEv string "ResourceInstance option" string "error option"
  | GetKeysEv int int "error + Keys"
  | GetKeyEv string "error + Key"
  | GetPoliciesEv string "error + Policy list"

text \<open>
  The world the handler runs against. The answer of an SDK operation may depend on its
  arguments and on how many SDK calls came before it, so every sequence of answers is
  covered. \<open>KmsEndpointURL\<close> and \<open>flex.FlattenKeyPolicies\<close> are helpers of the provider
  that the handler calls; they are parameters here.
\<close>

record kms_world =
  KeyManagementAPI :: "error option"
  ResourceControllerV2API :: "error option"
  GetResourceInstance_answer :: "nat \<Rightarrow> string \<Rightarrow> ResourceInstance option \<times> string \<times> error option"
  KmsEndpointURL :: "string \<Rightarrow> string \<Rightarrow> error + string"
  GetKeys_answer :: "nat \<Rightarrow> int \<Rightarrow> int \<Rightarrow> error + Keys"
  GetKey_answer :: "nat \<Rightarrow> string \<Rightarrow> error + Key"
  GetPolicies_answer :: "nat \<Rightarrow> string \<Rightarrow> error + Policy list"
  FlattenKeyPolicies :: "Policy list \<Rightarrow> tfvalue"

definition GetKeys :: "kms_world \<Rightarrow> event list \<Rightarrow> int \<Rightarrow> int \<Rightarrow> (error + Keys) \<times> event list" where
  "GetKeys w tr lim off =
     (GetKeys_answer w (length tr) lim off,
      tr @ [GetKeysEv lim off (GetKeys_answer w (length tr) lim off)])"

definition pageSize :: int where
  "pageSize = 200"

definition get_keys_failed :: "error \<Rightarrow> error" where
  "get_keys_failed err = ''[ERROR] Get Keys failed with error: '' @ err"

text \<open>
  The \<open>for\<close> loop of the branch taken when a limit is passed (\<open>limitVal \<noteq> 0\<close>). Its state is
  \<open>offset\<close>, \<open>totalKeys\<close> and the SDK calls made so far. The result is the error the
  handler returns or the accumulated keys; \<open>None\<close> means the loop never leaves. When
  \<open>offset < limitVal\<close> is false the body does nothing and the loop starts over.
\<close>

partial_function (option) fetch_loop ::
  "kms_world \<Rightarrow> int \<Rightarrow> int \<Rightarrow> Key list \<Rightarrow> event list \<Rightarrow> ((error + Key list) \<times> event list) option"
where
  "fetch_loop w limitVal offset totalKeys tr =
     (if offset < limitVal then
        (if limitVal - offset < pageSize then
           (case GetKeys w tr (limitVal - offset) offset of
              (Inl err, tr') \<Rightarrow> Some (Inl (get_keys_failed err), tr')
            | (Inr keys, tr') \<Rightarrow> Some (Inr (totalKeys @ Keys keys), tr'))
         else
           (case GetKeys w tr pageSize offset of
              (Inl err, tr') \<Rightarrow> Some (Inl (get_keys_failed err), tr')
            | (Inr keys, tr') \<Rightarrow>
                if NumberOfKeys (Metadata keys) < pageSize \<or> offset + pageSize = limitVal
                then Some (Inr (totalKeys @ Keys keys), tr')
                else fetch_loop w limitVal (offset + pageSize) (totalKeys @ Keys keys) tr'))
      else fetch_loop w limitVal offset totalKeys tr)"

text \<open>
  Fetching the keys for \<open>key_name\<close>: one call with limit 0 when no limit is passed, the
  loop otherwise.
\<close>

definition fetch_keys ::
  "kms_world \<Rightarrow> int \<Rightarrow> event list \<Rightarrow> ((error + Key list) \<times> event list) option" where
  "fetch_keys w limitVal tr =
     (if limitVal = 0 then
        (case GetKeys w tr 0 0 of
           (Inl err, tr') \<Rightarrow> Some (Inl (get_keys_failed err), tr')
         | (Inr keys, tr') \<Rightarrow> Some (Inr ([] @ Keys keys), tr'))
      else fetch_loop w limitVal 0 [] tr)"

text \<open>The remaining SDK operations, each recorded like \<open>GetKeys\<close>.\<close>

definition GetResourceInstance ::
  "kms_world \<Rightarrow> event list \<Rightarrow> string
     \<Rightarrow> (ResourceInstance option \<times> string \<times> error option) \<times> event list" where
  "GetResourceInstance w tr ident =
     (case GetResourceInstance_answer w (length tr) ident of
        (instanceData, resp, err) \<Rightarrow>
          ((instanceData, resp, err), tr @ [GetResourceInstanceEv ident instanceData resp err]))"

definition GetKey :: "kms_world \<Rightarrow> event list \<Rightarrow> string \<Rightarrow> (error + Key) \<times> event list" where
  "GetKey w tr ident =
     (GetKey_answer w (length tr) ident,
      tr @ [GetKeyEv ident (GetKey_answer w (length tr) ident)])"

definition GetPolicies ::
  "kms_world \<Rightarrow> event list \<Rightarrow> string \<Rightarrow> (error + Policy list) \<times> event list" where
  "GetPolicies w tr ident =
     (GetPolicies_answer w (length tr) ident,
      tr @ [GetPoliciesEv ident (GetPolicies_answer w (length tr) ident)])"

text \<open>How \<open>%s\<close> prints an error that may be nil.\<close>

definition verb_s :: "error option \<Rightarrow> string" where
  "verb_s err = (case err of None \<Rightarrow> ''%!s(<nil>)'' | Some e \<Rightarrow> e)"

definition retrieving_failed :: "error option \<Rightarrow> string \<Rightarrow> error" where
  "retrieving_failed err resp =
     ''[ERROR] Error retrieving resource instance: '' @ verb_s err @ '' with resp code: '' @ resp"

definition policies_failed :: "error \<Rightarrow> error" where
  "policies_failed err = ''[ERROR] Failed to read policies: '' @ err"

definition no_keys_in_instance :: "string \<Rightarrow> error" where
  "no_keys_in_instance instanceID = ''[ERROR] No keys in instance  '' @ instanceID"

definition no_keys_with_name :: "string \<Rightarrow> string \<Rightarrow> error" where
  "no_keys_with_name keyName instanceID =
     ''[ERROR] No keys with name '' @ keyName @ '' in instance  '' @ instanceID"

text \<open>The instance ID the handler works with: the third-from-last segment of a CRN.\<close>

definition crn_instance_id :: "string \<Rightarrow> string" where
  "crn_instance_id instanceID =
     (let CrnInstanceID = Split instanceID CHR '':'' in
      if length CrnInstanceID > 3 then CrnInstanceID ! (length CrnInstanceID - 3)
      else instanceID)"

text \<open>The entries every \<open>keyInstance\<close> map gets, before the policies are read.\<close>

definition key_fields :: "Key \<Rightarrow> (string \<times> tfvalue) list" where
  "key_fields key =
     [(''id'', VStr (ID key)), (''name'', VStr (Name key)), (''crn'', VStr (CRN key)),
      (''standard_key'', VBool (Extractable key)), (''aliases'', VStrs (Aliases key)),
      (''key_ring_id'', VStr (KeyRingID key))]"

definition key_instance ::
  "kms_world \<Rightarrow> event list \<Rightarrow> Key \<Rightarrow> (error + tfvalue) \<times> event list" where
  "key_instance w tr key =
     (case GetPolicies w tr (ID key) of
        (Inl err, tr') \<Rightarrow> (Inl (policies_failed err), tr')
      | (Inr policies, tr') \<Rightarrow>
          (Inr (VMap (if length policies = 0 then key_fields key
                      else key_fields key @ [(''policies'', FlattenKeyPolicies w policies)])),
           tr'))"

text \<open>The loop over \<open>matchKeys\<close> that builds \<open>keyMap\<close>; it returns at the first error.\<close>

fun key_maps ::
  "kms_world \<Rightarrow> event list \<Rightarrow> Key list \<Rightarrow> tfvalue list \<Rightarrow> (error + tfvalue list) \<times> event list"
where
  "key_maps w tr [] keyMap = (Inr keyMap, tr)"
| "key_maps w tr (key # rest) keyMap =
     (case key_instance w tr key of
        (Inl err, tr') \<Rightarrow> (Inl err, tr')
      | (Inr keyInstance, tr') \<Rightarrow> key_maps w tr' rest (keyMap @ [keyInstance]))"

text \<open>What all three branches do once \<open>keyMap\<close> is complete.\<close>

definition store_keys :: "string \<Rightarrow> tfvalue list \<Rightarrow> ResourceData \<Rightarrow> ResourceData" where
  "store_keys instanceID keyMap d =
     d_Set ''instance_id'' (VStr instanceID) (d_Set ''keys'' (VList keyMap) (SetId instanceID d))"

text \<open>The branch for \<open>key_name\<close>: fetch, filter by name, read the policies, store.\<close>

definition read_by_name ::
  "kms_world \<Rightarrow> string \<Rightarrow> string \<Rightarrow> ResourceData \<Rightarrow> event list
     \<Rightarrow> (error option \<times> ResourceData \<times> event list) option" where
  "read_by_name w instanceID v d tr =
     (case fetch_keys w (Get_int d ''limit'') tr of
        None \<Rightarrow> None
      | Some (Inl err, tr') \<Rightarrow> Some (Some err, d, tr')
      | Some (Inr totalKeys, tr') \<Rightarrow>
          if length totalKeys = 0 then Some (Some (no_keys_in_instance instanceID), d, tr')
          else
            let keyName = (if v \<noteq> [] then v else []);
                matchKeys = (if v \<noteq> [] then filter (\<lambda>keyData. Name keyData = v) totalKeys
                             else totalKeys)
            in if length matchKeys = 0
               then Some (Some (no_keys_with_name keyName instanceID), d, tr')
               else (case key_maps w tr' matchKeys [] of
                       (Inl err, tr'') \<Rightarrow> Some (Some err, d, tr'')
                     | (Inr keyMap, tr'') \<Rightarrow> Some (None, store_keys instanceID keyMap d, tr'')))"

text \<open>The branches for \<open>key_id\<close> and \<open>alias\<close>: one \<open>GetKey\<close>, its policies, store.\<close>

definition read_one ::
  "kms_world \<Rightarrow> string \<Rightarrow> string \<Rightarrow> ResourceData \<Rightarrow> event list
     \<Rightarrow> error option \<times> ResourceData \<times> event list" where
  "read_one w instanceID ident d tr =
     (case GetKey w tr ident of
        (Inl err, tr') \<Rightarrow> (Some (get_keys_failed err), d, tr')
      | (Inr key, tr') \<Rightarrow>
          (case key_instance w tr' key of
             (Inl err, tr'') \<Rightarrow> (Some err, d, tr'')
           | (Inr keyInstance, tr'') \<Rightarrow> (None, store_keys instanceID [keyInstance] d, tr'')))"

text \<open>
  The handler. It returns the error (\<open>None\<close> for nil), the resource data and the SDK
  calls it made; the outer \<open>None\<close> means that it never returns.
\<close>

definition dataSourceIBMKMSKeyRead ::
  "kms_world \<Rightarrow> ResourceData \<Rightarrow> (error option \<times> ResourceData \<times> event list) option" where
  "dataSourceIBMKMSKeyRead w d =
     (case KeyManagementAPI w of
        Some err \<Rightarrow> Some (Some err, d, [])
      | None \<Rightarrow>
          let instanceID = crn_instance_id (Get_string d ''instance_id'');
              endpointType = Get_string d ''endpoint_type''
          in (case ResourceControllerV2API w of
                Some err \<Rightarrow> Some (Some err, d, [])
              | None \<Rightarrow>
                  (case GetResourceInstance w [] instanceID of
                     ((instanceData, resp, err), tr) \<Rightarrow>
                       if err \<noteq> None \<or> instanceData = None
                       then Some (Some (retrieving_failed err resp), d, tr)
                       else (case KmsEndpointURL w endpointType (Extensions (the instanceData)) of
                               Inl err \<Rightarrow> Some (Some err, d, tr)
                             | Inr URL \<Rightarrow>
                                 if snd (GetOk d ''key_name'')
                                 then read_by_name w instanceID (fst (GetOk d ''key_name'')) d tr
                                 else if snd (GetOk d ''key_id'')
                                 then Some (read_one w instanceID (fst (GetOk d ''key_id'')) d tr)
                                 else Some (read_one w instanceID (Get_string d ''alias'') d tr)))))"

section \<open>The storage-type capacity data source (dataSourceIBMPIStorageTypeCapacityRead)\<close>

text \<open>
  The response structs of the power SDK, with the fields the handler reads. A field the
  handler dereferences with \<open>*\<close> is a pointer and may be nil; the pools are a slice of
  pointers.
\<close>

record MaximumStorageAllocation =
  msa_MaxAllocationSize :: "int option"
  msa_StoragePool :: "string option"
  msa_StorageType :: "string option"

record StoragePoolCapacity =
  sp_MaxAllocationSize :: "int option"
  sp_PoolName :: string
  sp_StorageType :: string
  sp_TotalCapacity :: int

record StorageTypeCapacity =
  MaximumStorageAllocation :: "MaximumStorageAllocation option"
  StoragePoolsCapacity :: "StoragePoolCapacity option list"

text \<open>The constant the handler's file declares.\<close>

definition PITypeName :: string where "PITypeName = ''pi_storage_type''"

text \<open>
  Modelled from the spec: \<open>helpers.PICloudInstanceId\<close> and the \<open>Attr_\<close> constants are declared
  outside the handler's file; the data source's attributes are named as its documentation
  names them.
\<close>

definition PICloudInstanceId :: string where "PICloudInstanceId = ''pi_cloud_instance_id''"
definition Attr_MaximumStorageAllocation :: string where
  "Attr_MaximumStorageAllocation = ''maximum_storage_allocation''"
definition Attr_StoragePoolsCapacity :: string where
  "Attr_StoragePoolsCapacity = ''storage_pools_capacity''"
definition Attr_MaxAllocationSize :: string where "Attr_MaxAllocationSize = ''max_allocation_size''"
definition Attr_StoragePool :: string where "Attr_StoragePool = ''storage_pool''"
definition Attr_StorageType :: string where "Attr_StorageType = ''storage_type''"
definition Attr_PoolName :: string where "Attr_PoolName = ''pool_name''"
definition Attr_TotalCapacity :: string where "Attr_TotalCapacity = ''total_capacity''"

text \<open>\<open>flex.Flatten\<close> is a helper of the provider and a parameter here.\<close>

record pi_world =
  IBMPISession :: "error option"
  GetStorageTypeCapacity :: "string \<Rightarrow> string \<Rightarrow> error + StorageTypeCapacity"
  Flatten :: "(string \<times> tfvalue) list \<Rightarrow> tfvalue"

text \<open>The map literal built from a non-nil \<open>MaximumStorageAllocation\<close>.\<close>

definition msa_data :: "MaximumStorageAllocation \<Rightarrow> (string \<times> tfvalue) list outcome" where
  "msa_data msa =
     (case msa_MaxAllocationSize msa of
        None \<Rightarrow> Panicked nil_dereference
      | Some sz \<Rightarrow>
          (case msa_StoragePool msa of
             None \<Rightarrow> Panicked nil_dereference
           | Some pool \<Rightarrow>
               (case msa_StorageType msa of
                  None \<Rightarrow> Panicked nil_dereference
                | Some stype \<Rightarrow>
                    Returned [(Attr_MaxAllocationSize, VInt sz), (Attr_StoragePool, VStr pool),
                              (Attr_StorageType, VStr stype)])))"

text \<open>The map literal built for one pool.\<close>

definition sp_data :: "StoragePoolCapacity option \<Rightarrow> tfvalue outcome" where
  "sp_data p =
     (case p of
        None \<Rightarrow> Panicked nil_dereference
      | Some sp \<Rightarrow>
          (case sp_MaxAllocationSize sp of
             None \<Rightarrow> Panicked nil_dereference
           | Some sz \<Rightarrow>
               Returned (VMap [(Attr_MaxAllocationSize, VInt sz), (Attr_PoolName, VStr (sp_PoolName sp)),
                               (Attr_StorageType, VStr (sp_StorageType sp)),
                               (Attr_TotalCapacity, VInt (sp_TotalCapacity sp))])))"

text \<open>The loop over the pools, appending to \<open>result\<close>.\<close>

fun pools_result :: "StoragePoolCapacity option list \<Rightarrow> tfvalue list \<Rightarrow> tfvalue list outcome" where
  "pools_result [] result = Returned result"
| "pools_result (sp # rest) result =
     (case sp_data sp of
        Panicked p \<Rightarrow> Panicked p
      | Returned data \<Rightarrow> pools_result rest (result @ [data]))"

definition dataSourceIBMPIStorageTypeCapacityRead ::
  "pi_world \<Rightarrow> ResourceData \<Rightarrow> (diagnostics \<times> ResourceData) outcome" where
  "dataSourceIBMPIStorageTypeCapacityRead w d =
     (case IBMPISession w of
        Some err \<Rightarrow> Returned ([FromErr err], d)
      | None \<Rightarrow>
          let cloudInstanceID = Get_string d PICloudInstanceId;
              storageType = Get_string d PITypeName
          in (case GetStorageTypeCapacity w cloudInstanceID storageType of
                Inl err \<Rightarrow> Returned ([FromErr err], d)
              | Inr stc \<Rightarrow>
                  let d1 = SetId (cloudInstanceID @ ''/'' @ storageType) d
                  in (case (case MaximumStorageAllocation stc of
                              None \<Rightarrow> Returned d1
                            | Some msa \<Rightarrow>
                                (case msa_data msa of
                                   Panicked p \<Rightarrow> Panicked p
                                 | Returned data \<Rightarrow>
                                     Returned (d_Set Attr_MaximumStorageAllocation (Flatten w data) d1)))
                      of
                        Panicked p \<Rightarrow> Panicked p
                      | Returned d2 \<Rightarrow>
                          (case pools_result (StoragePoolsCapacity stc) [] of
                             Panicked p \<Rightarrow> Panicked p
                           | Returned result \<Rightarrow>
                               Returned ([], d_Set Attr_StoragePoolsCapacity (VList result) d2)))))"

section \<open>The project-configuration data source (dataSourceIbmProjectConfigRead)\<close>

text \<open>
  The response structs of the project SDK, with the fields the handler reads. A pointer
  field is an option; a field of type \<open>interface{}\<close> is a \<open>tfvalue\<close>, \<open>VNil\<close> for nil.
\<close>

record ProjectConfigNeedsAttentionState =
  nas_EventID :: "string option"
  nas_Event :: "string option"
  nas_Severity :: "string option"
  nas_ActionURL :: "string option"
  nas_Target :: "string option"
  nas_TriggeredBy :: "string option"
  nas_Timestamp :: "string option"

record OutputValue =
  ov_Name :: "string option"
  ov_Description :: "string option"
  ov_Value :: tfvalue

record ProjectDefinitionReference =
  pdr_Name :: "string option"

record ProjectReference =
  pr_ID :: "string option"
  pr_Href :: "string option"
  pr_Definition :: "ProjectDefinitionReference option"
  pr_Crn :: "string option"

record Script =
  sc_Type :: "string option"
  sc_Path :: "string option"
  sc_ShortDescription :: "string option"

record SchematicsMetadata =
  sm_WorkspaceCrn :: "string option"
  sm_ValidatePreScript :: "Script option"
  sm_ValidatePostScript :: "Script option"
  sm_DeployPreScript :: "Script option"
  sm_DeployPostScript :: "Script option"
  sm_UndeployPreScript :: "Script option"
  sm_UndeployPostScript :: "Script option"

record ProjectComplianceProfile =
  cp_ID :: "string option"
  cp_InstanceID :: "string option"
  cp_InstanceLocation :: "string option"
  cp_AttachmentID :: "string option"
  cp_ProfileName :: "string option"

record ProjectConfigAuth =
  au_TrustedProfileID :: "string option"
  au_Method :: "string option"
  au_ApiKey :: "string option"

text \<open>The fields of the three definition structs; each struct uses the ones it has.\<close>

record DefinitionProperties =
  df_ComplianceProfile :: "ProjectComplianceProfile option"
  df_LocatorID :: "string option"
  df_Description :: "string option"
  df_Name :: "string option"
  df_EnvironmentID :: "string option"
  df_Authorizations :: "ProjectConfigAuth option"
  df_Inputs :: "(string \<times> tfvalue) list option"
  df_Settings :: "(string \<times> tfvalue) list option"
  df_ResourceCrns :: "string list option"

text \<open>The dynamic type behind \<open>ProjectConfigDefinitionResponseIntf\<close>.\<close>

datatype ProjectConfigDefinitionResponseIntf =
    DAConfigDefinitionPropertiesResponse DefinitionProperties
  | ResourceConfigDefinitionPropertiesResponse DefinitionProperties
  | ProjectConfigDefinitionResponse DefinitionProperties
  | OtherDefinitionResponse

record ProjectConfigVersionDefinitionSummary =
  vd_EnvironmentID :: "string option"
  vd_LocatorID :: "string option"

record ProjectConfigVersionSummary =
  vs_Definition :: "ProjectConfigVersionDefinitionSummary option"
  vs_State :: "string option"
  vs_Version :: "int option"
  vs_Href :: "string option"

record ProjectConfig =
  pc_Version :: "int option"
  pc_IsDraft :: "bool option"
  pc_NeedsAttentionState :: "ProjectConfigNeedsAttentionState list"
  pc_CreatedAt :: "string option"
  pc_ModifiedAt :: "string option"
  pc_LastSavedAt :: "string option"
  pc_Outputs :: "OutputValue list"
  pc_Project :: "ProjectReference option"
  pc_Schematics :: "SchematicsMetadata option"
  pc_State :: "string option"
  pc_UpdateAvailable :: "bool option"
  pc_Href :: "string option"
  pc_Definition :: "ProjectConfigDefinitionResponseIntf option"
  pc_ApprovedVersion :: "ProjectConfigVersionSummary option"
  pc_DeployedVersion :: "ProjectConfigVersionSummary option"

text \<open>
  The world of the project handler: the session, the SDK call, what \<open>d.Set\<close> returns for
  a key and a value, and the helpers and library functions the code calls but does not
  define: \<open>stringify\<close>, \<open>flex.IntValue\<close>, \<open>flex.DateTimeToString\<close>, \<open>fmt.Sprintf("%v", v)\<close>,
  \<open>json.Marshal\<close> (the bytes and the error it returns) and \<open>json.Unmarshal\<close> into a nil
  \<open>interface{}\<close> (the value it leaves there, \<open>VNil\<close> when decoding fails).
\<close>

record project_world =
  ProjectV1 :: "error option"
  GetConfigWithContext :: "string \<Rightarrow> string \<Rightarrow> error + ProjectConfig"
  d_Set_error :: "string \<Rightarrow> tfvalue \<Rightarrow> error option"
  stringify :: "tfvalue \<Rightarrow> string"
  IntValue :: "int option \<Rightarrow> int"
  DateTimeToString :: "string option \<Rightarrow> string"
  Sprintf_v :: "tfvalue \<Rightarrow> string"
  json_Marshal :: "tfvalue \<Rightarrow> string \<times> error option"
  json_Unmarshal :: "string \<Rightarrow> tfvalue"

text \<open>A \<open>*string\<close> or \<open>*bool\<close> stored in a map as it is.\<close>

definition str_ptr :: "string option \<Rightarrow> tfvalue" where
  "str_ptr p = (case p of None \<Rightarrow> VNil | Some s \<Rightarrow> VStr s)"

definition bool_ptr :: "bool option \<Rightarrow> tfvalue" where
  "bool_ptr p = (case p of None \<Rightarrow> VNil | Some b \<Rightarrow> VBool b)"

text \<open>\<open>if p != nil { modelMap[k] = p }\<close>\<close>

definition put_if :: "string \<Rightarrow> string option \<Rightarrow> (string \<times> tfvalue) list \<Rightarrow> (string \<times> tfvalue) list" where
  "put_if k p modelMap = (case p of None \<Rightarrow> modelMap | Some s \<Rightarrow> modelMap @ [(k, VStr s)])"

definition type_assertion_panic :: string where
  "type_assertion_panic = ''interface conversion: interface {} is nil, not map[string]interface {}''"

definition dataSourceIbmProjectConfigProjectConfigNeedsAttentionStateToMap ::
  "ProjectConfigNeedsAttentionState \<Rightarrow> (error + tfvalue) outcome" where
  "dataSourceIbmProjectConfigProjectConfigNeedsAttentionStateToMap model =
     Returned (Inr (VMap
       (put_if ''triggered_by'' (nas_TriggeredBy model)
         (put_if ''target'' (nas_Target model)
           (put_if ''action_url'' (nas_ActionURL model)
             (put_if ''severity'' (nas_Severity model)
               [(''event_id'', str_ptr (nas_EventID model)), (''event'', str_ptr (nas_Event model))])))
        @ [(''timestamp'', str_ptr (nas_Timestamp model))])))"

definition dataSourceIbmProjectConfigOutputValueToMap ::
  "project_world \<Rightarrow> OutputValue \<Rightarrow> (error + tfvalue) outcome" where
  "dataSourceIbmProjectConfigOutputValueToMap w model =
     (let modelMap = put_if ''description'' (ov_Description model) [(''name'', str_ptr (ov_Name model))]
      in if ov_Value model \<noteq> VNil then
           (let modelMap = modelMap @ [(''value_json'', VStr (stringify w (ov_Value model)))]
            in case json_Marshal w (ov_Value model) of
                 (jsonStr, err) \<Rightarrow>
                   if err \<noteq> None then
                     (case json_Unmarshal w jsonStr of
                        VMap valueMap \<Rightarrow> Returned (Inr (VMap (modelMap @ [(''value'', VMap valueMap)])))
                      | _ \<Rightarrow> Panicked type_assertion_panic)
                   else Returned (Inr (VMap modelMap)))
         else Returned (Inr (VMap modelMap)))"

definition dataSourceIbmProjectConfigProjectDefinitionReferenceToMap ::
  "ProjectDefinitionReference option \<Rightarrow> (error + tfvalue) outcome" where
  "dataSourceIbmProjectConfigProjectDefinitionReferenceToMap p =
     (case p of
        None \<Rightarrow> Panicked nil_dereference
      | Some model \<Rightarrow> Returned (Inr (VMap [(''name'', str_ptr (pdr_Name model))])))"

definition dataSourceIbmProjectConfigProjectReferenceToMap ::
  "ProjectReference \<Rightarrow> (error + tfvalue) outcome" where
  "dataSourceIbmProjectConfigProjectReferenceToMap model =
     (case dataSourceIbmProjectConfigProjectDefinitionReferenceToMap (pr_Definition model) of
        Panicked p \<Rightarrow> Panicked p
      | Returned (Inl err) \<Rightarrow> Returned (Inl err)
      | Returned (Inr definitionMap) \<Rightarrow>
          Returned (Inr (VMap [(''id'', str_ptr (pr_ID model)), (''href'', str_ptr (pr_Href model)),
                               (''definition'', VList [definitionMap]),
                               (''crn'', str_ptr (pr_Crn model))])))"

definition dataSourceIbmProjectConfigScriptToMap :: "Script \<Rightarrow> (error + tfvalue) outcome" where
  "dataSourceIbmProjectConfigScriptToMap model =
     Returned (Inr (VMap
       (put_if ''short_description'' (sc_ShortDescription model)
         (put_if ''path'' (sc_Path model)
           (put_if ''type'' (sc_Type model) [])))))"

text \<open>
  \<open>if p != nil { m, err := toMap(p); if err != nil { return modelMap, err };
  modelMap[k] = []map[string]interface{}{m} }\<close>, followed by the rest of the function.
\<close>

definition put_nested ::
  "string \<Rightarrow> 'a option \<Rightarrow> ('a \<Rightarrow> (error + tfvalue) outcome) \<Rightarrow> (string \<times> tfvalue) list
     \<Rightarrow> ((string \<times> tfvalue) list \<Rightarrow> (error + tfvalue) outcome) \<Rightarrow> (error + tfvalue) outcome" where
  "put_nested k p toMap modelMap rest =
     (case p of
        None \<Rightarrow> rest modelMap
      | Some model \<Rightarrow>
          (case toMap model of
             Panicked x \<Rightarrow> Panicked x
           | Returned (Inl err) \<Rightarrow> Returned (Inl err)
           | Returned (Inr m) \<Rightarrow> rest (modelMap @ [(k, VList [m])])))"

definition dataSourceIbmProjectConfigSchematicsMetadataToMap ::
  "SchematicsMetadata \<Rightarrow> (error + tfvalue) outcome" where
  "dataSourceIbmProjectConfigSchematicsMetadataToMap model =
     put_nested ''validate_pre_script'' (sm_ValidatePreScript model) dataSourceIbmProjectConfigScriptToMap
       (put_if ''workspace_crn'' (sm_WorkspaceCrn model) []) (\<lambda>modelMap.
     put_nested ''validate_post_script'' (sm_ValidatePostScript model) dataSourceIbmProjectConfigScriptToMap
       modelMap (\<lambda>modelMap.
     put_nested ''deploy_pre_script'' (sm_DeployPreScript model) dataSourceIbmProjectConfigScriptToMap
       modelMap (\<lambda>modelMap.
     put_nested ''deploy_post_script'' (sm_DeployPostScript model) dataSourceIbmProjectConfigScriptToMap
       modelMap (\<lambda>modelMap.
     put_nested ''undeploy_pre_script'' (sm_UndeployPreScript model) dataSourceIbmProjectConfigScriptToMap
       modelMap (\<lambda>modelMap.
     put_nested ''undeploy_post_script'' (sm_UndeployPostScript model) dataSourceIbmProjectConfigScriptToMap
       modelMap (\<lambda>modelMap. Returned (Inr (VMap modelMap))))))))"

definition dataSourceIbmProjectConfigProjectComplianceProfileToMap ::
  "ProjectComplianceProfile \<Rightarrow> (error + tfvalue) outcome" where
  "dataSourceIbmProjectConfigProjectComplianceProfileToMap model =
     Returned (Inr (VMap
       (put_if ''profile_name'' (cp_ProfileName model)
         (put_if ''attachment_id'' (cp_AttachmentID model)
           (put_if ''instance_location'' (cp_InstanceLocation model)
             (put_if ''instance_id'' (cp_InstanceID model)
               (put_if ''id'' (cp_ID model) [])))))))"

definition dataSourceIbmProjectConfigProjectConfigAuthToMap ::
  "ProjectConfigAuth \<Rightarrow> (error + tfvalue) outcome" where
  "dataSourceIbmProjectConfigProjectConfigAuthToMap model =
     Returned (Inr (VMap
       (put_if ''api_key'' (au_ApiKey model)
         (put_if ''method'' (au_Method model)
           (put_if ''trusted_profile_id'' (au_TrustedProfileID model) [])))))"

text \<open>\<open>if m != nil { out := map; for k, v := range m { out[k] = fmt.Sprintf("%v", v) }; modelMap[key] = out }\<close>\<close>

definition put_formatted ::
  "project_world \<Rightarrow> string \<Rightarrow> (string \<times> tfvalue) list option \<Rightarrow> (string \<times> tfvalue) list
     \<Rightarrow> (string \<times> tfvalue) list" where
  "put_formatted w key m modelMap =
     (case m of
        None \<Rightarrow> modelMap
      | Some entries \<Rightarrow> modelMap @ [(key, VMap (map (\<lambda>(k, v). (k, VStr (Sprintf_v w v))) entries))])"

definition put_strs :: "string \<Rightarrow> string list option \<Rightarrow> (string \<times> tfvalue) list \<Rightarrow> (string \<times> tfvalue) list" where
  "put_strs k p modelMap = (case p of None \<Rightarrow> modelMap | Some xs \<Rightarrow> modelMap @ [(k, VStrs xs)])"

definition dataSourceIbmProjectConfigProjectConfigDefinitionResponseDAConfigDefinitionPropertiesResponseToMap ::
  "project_world \<Rightarrow> DefinitionProperties \<Rightarrow> (error + tfvalue) outcome" where
  "dataSourceIbmProjectConfigProjectConfigDefinitionResponseDAConfigDefinitionPropertiesResponseToMap w model =
     put_nested ''compliance_profile'' (df_ComplianceProfile model)
       dataSourceIbmProjectConfigProjectComplianceProfileToMap [] (\<lambda>modelMap.
     put_nested ''authorizations'' (df_Authorizations model)
       dataSourceIbmProjectConfigProjectConfigAuthToMap
       (put_if ''environment_id'' (df_EnvironmentID model)
         (put_if ''locator_id'' (df_LocatorID model) modelMap
            @ [(''description'', str_ptr (df_Description model)), (''name'', str_ptr (df_Name model))]))
       (\<lambda>modelMap.
     Returned (Inr (VMap
       (put_formatted w ''settings'' (df_Settings model)
         (put_formatted w ''inputs'' (df_Inputs model) modelMap))))))"

definition dataSourceIbmProjectConfigProjectConfigDefinitionResponseResourceConfigDefinitionPropertiesResponseToMap ::
  "project_world \<Rightarrow> DefinitionProperties \<Rightarrow> (error + tfvalue) outcome" where
  "dataSourceIbmProjectConfigProjectConfigDefinitionResponseResourceConfigDefinitionPropertiesResponseToMap w model =
     put_nested ''authorizations'' (df_Authorizations model)
       dataSourceIbmProjectConfigProjectConfigAuthToMap
       (put_if ''environment_id'' (df_EnvironmentID model)
         (put_strs ''resource_crns'' (df_ResourceCrns model) []
            @ [(''description'', str_ptr (df_Description model)), (''name'', str_ptr (df_Name model))]))
       (\<lambda>modelMap.
     Returned (Inr (VMap
       (put_formatted w ''settings'' (df_Settings model)
         (put_formatted w ''inputs'' (df_Inputs model) modelMap)))))"

definition unrecognized_subtype :: error where
  "unrecognized_subtype =
     ''Unrecognized projectv1.ProjectConfigDefinitionResponseIntf subtype encountered''"

definition dataSourceIbmProjectConfigProjectConfigDefinitionResponseToMap ::
  "project_world \<Rightarrow> ProjectConfigDefinitionResponseIntf \<Rightarrow> (error + tfvalue) outcome" where
  "dataSourceIbmProjectConfigProjectConfigDefinitionResponseToMap w model =
     (case model of
        DAConfigDefinitionPropertiesResponse m \<Rightarrow>
          dataSourceIbmProjectConfigProjectConfigDefinitionResponseDAConfigDefinitionPropertiesResponseToMap w m
      | ResourceConfigDefinitionPropertiesResponse m \<Rightarrow>
          dataSourceIbmProjectConfigProjectConfigDefinitionResponseResourceConfigDefinitionPropertiesResponseToMap w m
      | ProjectConfigDefinitionResponse m \<Rightarrow>
          put_nested ''compliance_profile'' (df_ComplianceProfile m)
            dataSourceIbmProjectConfigProjectComplianceProfileToMap [] (\<lambda>modelMap.
          put_nested ''authorizations'' (df_Authorizations m)
            dataSourceIbmProjectConfigProjectConfigAuthToMap
            (put_if ''environment_id'' (df_EnvironmentID m)
              (put_if ''name'' (df_Name m)
                (put_if ''description'' (df_Description m)
                  (put_if ''locator_id'' (df_LocatorID m) modelMap))))
            (\<lambda>modelMap.
          Returned (Inr (VMap
            (put_strs ''resource_crns'' (df_ResourceCrns m)
              (put_formatted w ''settings'' (df_Settings m)
                (put_formatted w ''inputs'' (df_Inputs m) modelMap)))))))
      | OtherDefinitionResponse \<Rightarrow> Returned (Inl unrecognized_subtype))"

definition dataSourceIbmProjectConfigProjectConfigVersionDefinitionSummaryToMap ::
  "ProjectConfigVersionDefinitionSummary option \<Rightarrow> (error + tfvalue) outcome" where
  "dataSourceIbmProjectConfigProjectConfigVersionDefinitionSummaryToMap p =
     (case p of
        None \<Rightarrow> Panicked nil_dereference
      | Some model \<Rightarrow>
          Returned (Inr (VMap
            (put_if ''locator_id'' (vd_LocatorID model)
              (put_if ''environment_id'' (vd_EnvironmentID model) [])))))"

definition dataSourceIbmProjectConfigProjectConfigVersionSummaryToMap ::
  "project_world \<Rightarrow> ProjectConfigVersionSummary \<Rightarrow> (error + tfvalue) outcome" where
  "dataSourceIbmProjectConfigProjectConfigVersionSummaryToMap w model =
     (case dataSourceIbmProjectConfigProjectConfigVersionDefinitionSummaryToMap (vs_Definition model) of
        Panicked p \<Rightarrow> Panicked p
      | Returned (Inl err) \<Rightarrow> Returned (Inl err)
      | Returned (Inr definitionMap) \<Rightarrow>
          Returned (Inr (VMap [(''definition'', VList [definitionMap]),
                               (''state'', str_ptr (vs_State model)),
                               (''version'', VInt (IntValue w (vs_Version model))),
                               (''href'', str_ptr (vs_Href model))])))"

text \<open>The diagnostics of the handler's error returns.\<close>

definition tf_error :: "error \<Rightarrow> string \<Rightarrow> diagnostics" where
  "tf_error err message = [TerraformErrorf err message ''(Data) ibm_project_config'' ''read'']"

text \<open>
  \<open>if err = d.Set(k, v); err != nil { return TerraformErrorf(err, "Error setting k: err", ...) }\<close>,
  followed by the rest of the handler.
\<close>

definition checked_Set ::
  "project_world \<Rightarrow> string \<Rightarrow> tfvalue \<Rightarrow> ResourceData
     \<Rightarrow> (ResourceData \<Rightarrow> (diagnostics \<times> ResourceData) outcome)
     \<Rightarrow> (diagnostics \<times> ResourceData) outcome" where
  "checked_Set w k v d rest =
     (case d_Set_error w k v of
        Some err \<Rightarrow> Returned (tf_error err (''Error setting '' @ k @ '': '' @ err), d)
      | None \<Rightarrow> rest (d_Set k v d))"

text \<open>
  The loops \<open>for _, modelItem := range items { modelMap, err := toMap(&modelItem); ... }\<close>:
  the list of maps, the first error, or a panic.
\<close>

fun to_maps ::
  "('a \<Rightarrow> (error + tfvalue) outcome) \<Rightarrow> 'a list \<Rightarrow> tfvalue list \<Rightarrow> (error + tfvalue list) outcome"
where
  "to_maps toMap [] acc = Returned (Inr acc)"
| "to_maps toMap (modelItem # items) acc =
     (case toMap modelItem of
        Panicked p \<Rightarrow> Panicked p
      | Returned (Inl err) \<Rightarrow> Returned (Inl err)
      | Returned (Inr modelMap) \<Rightarrow> to_maps toMap items (acc @ [modelMap]))"

text \<open>
  Building a list attribute from items (or from a pointer, seen as a list of at most one
  item) and setting it: an error of \<open>toMap\<close> is returned as a diagnostic.
\<close>

definition set_maps ::
  "project_world \<Rightarrow> string \<Rightarrow> ('a \<Rightarrow> (error + tfvalue) outcome) \<Rightarrow> 'a list \<Rightarrow> ResourceData
     \<Rightarrow> (ResourceData \<Rightarrow> (diagnostics \<times> ResourceData) outcome)
     \<Rightarrow> (diagnostics \<times> ResourceData) outcome" where
  "set_maps w k toMap items d rest =
     (case to_maps toMap items [] of
        Panicked p \<Rightarrow> Panicked p
      | Returned (Inl err) \<Rightarrow> Returned (tf_error err err, d)
      | Returned (Inr ms) \<Rightarrow> checked_Set w k (VList ms) d rest)"

text \<open>The part of the handler after \<open>SetId\<close>: every attribute is set in turn.\<close>

definition set_attributes ::
  "project_world \<Rightarrow> ProjectConfig \<Rightarrow> ResourceData \<Rightarrow> (diagnostics \<times> ResourceData) outcome" where
  "set_attributes w projectConfig d =
     checked_Set w ''version'' (VInt (IntValue w (pc_Version projectConfig))) d (\<lambda>d.
     checked_Set w ''is_draft'' (bool_ptr (pc_IsDraft projectConfig)) d (\<lambda>d.
     set_maps w ''needs_attention_state''
       dataSourceIbmProjectConfigProjectConfigNeedsAttentionStateToMap
       (pc_NeedsAttentionState projectConfig) d (\<lambda>d.
     checked_Set w ''created_at'' (VStr (DateTimeToString w (pc_CreatedAt projectConfig))) d (\<lambda>d.
     checked_Set w ''modified_at'' (VStr (DateTimeToString w (pc_ModifiedAt projectConfig))) d (\<lambda>d.
     checked_Set w ''last_saved_at'' (VStr (DateTimeToString w (pc_LastSavedAt projectConfig))) d (\<lambda>d.
     set_maps w ''outputs'' (dataSourceIbmProjectConfigOutputValueToMap w)
       (pc_Outputs projectConfig) d (\<lambda>d.
     set_maps w ''project'' dataSourceIbmProjectConfigProjectReferenceToMap
       (case pc_Project projectConfig of None \<Rightarrow> [] | Some p \<Rightarrow> [p]) d (\<lambda>d.
     set_maps w ''schematics'' dataSourceIbmProjectConfigSchematicsMetadataToMap
       (case pc_Schematics projectConfig of None \<Rightarrow> [] | Some p \<Rightarrow> [p]) d (\<lambda>d.
     checked_Set w ''state'' (str_ptr (pc_State projectConfig)) d (\<lambda>d.
     checked_Set w ''update_available'' (bool_ptr (pc_UpdateAvailable projectConfig)) d (\<lambda>d.
     checked_Set w ''href'' (str_ptr (pc_Href projectConfig)) d (\<lambda>d.
     set_maps w ''definition'' (dataSourceIbmProjectConfigProjectConfigDefinitionResponseToMap w)
       (case pc_Definition projectConfig of None \<Rightarrow> [] | Some p \<Rightarrow> [p]) d (\<lambda>d.
     set_maps w ''approved_version'' (dataSourceIbmProjectConfigProjectConfigVersionSummaryToMap w)
       (case pc_ApprovedVersion projectConfig of None \<Rightarrow> [] | Some p \<Rightarrow> [p]) d (\<lambda>d.
     set_maps w ''deployed_version'' (dataSourceIbmProjectConfigProjectConfigVersionSummaryToMap w)
       (case pc_DeployedVersion projectConfig of None \<Rightarrow> [] | Some p \<Rightarrow> [p]) d (\<lambda>d.
     Returned ([], d))))))))))))))))"

definition dataSourceIbmProjectConfigRead ::
  "project_world \<Rightarrow> ResourceData \<Rightarrow> (diagnostics \<times> ResourceData) outcome" where
  "dataSourceIbmProjectConfigRead w d =
     (case ProjectV1 w of
        Some err \<Rightarrow> Returned (tf_error err err, d)
      | None \<Rightarrow>
          (case GetConfigWithContext w (Get_string d ''project_id'') (Get_string d ''project_config_id'') of
             Inl err \<Rightarrow> Returned (tf_error err (''GetConfigWithContext failed: '' @ err), d)
           | Inr projectConfig \<Rightarrow>
               set_attributes w projectConfig
                 (SetId (Get_string d ''project_id'' @ ''/'' @ Get_string d ''project_config_id'') d)))"

section \<open>The schema of the key-protect data source (DataSourceIBMKMSkey)\<close>

datatype ValueType = TypeString | TypeInt | TypeBool | TypeList

text \<open>
  A \<open>schema.Schema\<close> with the fields the data source uses. \<open>ValidateFunc\<close> is kept as the list
  of strings given to \<open>validate.ValidateAllowedStringValues\<close>.
\<close>

record Schema =
  s_Type :: ValueType
  s_Required :: bool
  s_Optional :: bool
  s_Computed :: bool
  s_ExactlyOneOf :: "string list"
  s_ValidateAllowedStringValues :: "string list option"
  s_Default :: "tfvalue option"

definition plain :: "ValueType \<Rightarrow> Schema" where
  "plain t = \<lparr>s_Type = t, s_Required = False, s_Optional = False, s_Computed = False,
     s_ExactlyOneOf = [], s_ValidateAllowedStringValues = None, s_Default = None\<rparr>"

text \<open>The top-level attributes, in the order of the source.\<close>

definition DataSourceIBMKMSkey :: "(string \<times> Schema) list" where
  "DataSourceIBMKMSkey =
     [(''instance_id'', (plain TypeString)\<lparr>s_Required := True\<rparr>),
      (''limit'', (plain TypeInt)\<lparr>s_Optional := True\<rparr>),
      (''key_id'', (plain TypeString)\<lparr>s_Optional := True,
         s_ExactlyOneOf := [''alias'', ''key_name'', ''key_id'']\<rparr>),
      (''key_name'', (plain TypeString)\<lparr>s_Optional := True,
         s_ExactlyOneOf := [''alias'', ''key_name'', ''key_id'']\<rparr>),
      (''alias'', (plain TypeString)\<lparr>s_Optional := True,
         s_ExactlyOneOf := [''alias'', ''key_name'', ''key_id'']\<rparr>),
      (''endpoint_type'', (plain TypeString)\<lparr>s_Optional := True,
         s_ValidateAllowedStringValues := Some [''public'', ''private''],
         s_Default := Some (VStr ''public'')\<rparr>),
      (''keys'', (plain TypeList)\<lparr>s_Computed := True\<rparr>)]"

text \<open>
  Modelled from the spec: the validation of a configuration against a schema is done by
  the Terraform plugin SDK and by \<open>validate.ValidateAllowedStringValues\<close>, neither of which
  is among the sources. A configuration gives values to some attributes. It is accepted
  when, for every attribute of the schema: a configured value has the attribute's type; a
  required attribute is configured; an attribute that is neither required nor optional is
  not configured; if the attribute lists \<open>ExactlyOneOf\<close>, exactly one of the listed
  attributes is configured; and a configured value passes the attribute's list of allowed
  strings. An attribute that is not configured reads as its default.
\<close>

definition has_type :: "ValueType \<Rightarrow> tfvalue \<Rightarrow> bool" where
  "has_type t v =
     (case v of VStr s \<Rightarrow> t = TypeString | VInt n \<Rightarrow> t = TypeInt | VBool b \<Rightarrow> t = TypeBool
      | VList xs \<Rightarrow> t = TypeList | VStrs xs \<Rightarrow> t = TypeList | _ \<Rightarrow> False)"

definition configured :: "(string \<rightharpoonup> tfvalue) \<Rightarrow> string list \<Rightarrow> nat" where
  "configured cfg ks = length (filter (\<lambda>k. cfg k \<noteq> None) ks)"

definition ValidateAllowedStringValues :: "string list \<Rightarrow> tfvalue \<Rightarrow> bool" where
  "ValidateAllowedStringValues allowed v = (case v of VStr s \<Rightarrow> s \<in> set allowed | _ \<Rightarrow> False)"

definition attribute_accepts :: "(string \<rightharpoonup> tfvalue) \<Rightarrow> string \<Rightarrow> Schema \<Rightarrow> bool" where
  "attribute_accepts cfg k s =
     ((case cfg k of
         None \<Rightarrow> \<not> s_Required s
       | Some v \<Rightarrow>
           has_type (s_Type s) v \<and> (s_Required s \<or> s_Optional s)
           \<and> (case s_ValidateAllowedStringValues s of
                 None \<Rightarrow> True
               | Some allowed \<Rightarrow> ValidateAllowedStringValues allowed v))
      \<and> (s_ExactlyOneOf s = [] \<or> configured cfg (s_ExactlyOneOf s) = 1))"

definition schema_accepts :: "(string \<times> Schema) list \<Rightarrow> (string \<rightharpoonup> tfvalue) \<Rightarrow> bool" where
  "schema_accepts schema cfg = list_all (\<lambda>(k, s). attribute_accepts cfg k s) schema"

definition read_attribute :: "(string \<times> Schema) list \<Rightarrow> (string \<rightharpoonup> tfvalue) \<Rightarrow> string \<Rightarrow> tfvalue option" where
  "read_attribute schema cfg k =
     (case cfg k of
        Some v \<Rightarrow> Some v
      | None \<Rightarrow> (case map_of schema k of None \<Rightarrow> None | Some s \<Rightarrow> s_Default s))"

section \<open>Vocabulary for the properties of the pagination\<close>

text \<open>
  \<open>paged L off evs\<close>: the calls \<open>evs\<close> are \<open>GetKeys\<close> calls, the first at offset \<open>off\<close>, each
  at the offset where the one before ended, and each asking for \<open>min(200, L - offset)\<close>.
\<close>

fun paged :: "int \<Rightarrow> int \<Rightarrow> event list \<Rightarrow> bool" where
  "paged L off [] = True"
| "paged L off (GetKeysEv lim at r # evs) =
     (at = off \<and> lim = min pageSize (L - off) \<and> paged L (off + lim) evs)"
| "paged L off (_ # evs) = False"

text \<open>The page size a call asked for.\<close>

fun requested :: "event \<Rightarrow> int" where
  "requested (GetKeysEv lim at r) = lim"
| "requested _ = 0"

text \<open>
  \<open>stops_after L ev\<close>: the page \<open>ev\<close> failed, or reported fewer keys (in
  \<open>Metadata.NumberOfKeys\<close>) than it was asked for, or ended at \<open>L\<close>.
\<close>

fun stops_after :: "int \<Rightarrow> event \<Rightarrow> bool" where
  "stops_after L (GetKeysEv lim at r) =
     (case r of Inl err \<Rightarrow> True
      | Inr keys \<Rightarrow> NumberOfKeys (Metadata keys) < lim \<or> at + lim = L)"
| "stops_after L _ = False"

text \<open>The error of the SDK call an event records, if the call failed.\<close>

fun event_error :: "event \<Rightarrow> error option" where
  "event_error (GetResourceInstanceEv ident instanceData resp err) = err"
| "event_error (GetKeysEv lim at r) = (case r of Inl err \<Rightarrow> Some err | Inr keys \<Rightarrow> None)"
| "event_error (GetKeyEv ident r) = (case r of Inl err \<Rightarrow> Some err | Inr key \<Rightarrow> None)"
| "event_error (GetPoliciesEv ident r) = (case r of Inl err \<Rightarrow> Some err | Inr ps \<Rightarrow> None)"

text \<open>The keys a successful page carried.\<close>

fun page_keys :: "event \<Rightarrow> Key list" where
  "page_keys (GetKeysEv lim at (Inr keys)) = Keys keys"
| "page_keys _ = []"

text \<open>
  How the result of the fetch relates to the pages: an error is the wrapped error of the
  last page, a key list is \<open>totalKeys\<close> followed by the keys of all pages.
\<close>

definition loop_result_ok :: "Key list \<Rightarrow> event list \<Rightarrow> (error + Key list) \<Rightarrow> bool" where
  "loop_result_ok totalKeys evs r =
     (case r of
        Inl x \<Rightarrow> (case event_error (last evs) of None \<Rightarrow> False | Some e \<Rightarrow> x = get_keys_failed e)
      | Inr ks \<Rightarrow> event_error (last evs) = None \<and> ks = totalKeys @ concat (map page_keys evs))"

section \<open>Vocabulary for the properties of the capacity data source\<close>

text \<open>
  \<open>carries_pool p entry\<close>: \<open>entry\<close> is the map with the maximum allocation size, the pool name,
  the storage type and the total capacity of the pool \<open>p\<close>.
\<close>

definition carries_pool :: "StoragePoolCapacity option \<Rightarrow> tfvalue \<Rightarrow> bool" where
  "carries_pool p entry =
     (case p of
        None \<Rightarrow> False
      | Some sp \<Rightarrow>
          (case sp_MaxAllocationSize sp of
             None \<Rightarrow> False
           | Some sz \<Rightarrow>
               entry = VMap [(''max_allocation_size'', VInt sz), (''pool_name'', VStr (sp_PoolName sp)),
                             (''storage_type'', VStr (sp_StorageType sp)),
                             (''total_capacity'', VInt (sp_TotalCapacity sp))]))"

section \<open>Vocabulary for the properties of the key-protect data source\<close>

text \<open>\<open>carries_key key entry\<close>: \<open>entry\<close> is a map that starts with the six fields of \<open>key\<close>.\<close>

definition carries_key :: "Key \<Rightarrow> tfvalue \<Rightarrow> bool" where
  "carries_key key entry =
     (case entry of
        VMap m \<Rightarrow> take 6 m =
          [(''id'', VStr (ID key)), (''name'', VStr (Name key)), (''crn'', VStr (CRN key)),
           (''standard_key'', VBool (Extractable key)), (''aliases'', VStrs (Aliases key)),
           (''key_ring_id'', VStr (KeyRingID key))]
      | _ \<Rightarrow> False)"

text \<open>
  The error the handler returns for a failed SDK call: the text of the SDK's error \<open>e\<close>
  behind the message of the call site.
\<close>

fun wrapped :: "event \<Rightarrow> error \<Rightarrow> error" where
  "wrapped (GetResourceInstanceEv ident instanceData resp err) e =
     ''[ERROR] Error retrieving resource instance: '' @ e @ '' with resp code: '' @ resp"
| "wrapped (GetKeysEv lim at r) e = ''[ERROR] Get Keys failed with error: '' @ e"
| "wrapped (GetKeyEv ident r) e = ''[ERROR] Get Keys failed with error: '' @ e"
| "wrapped (GetPoliciesEv ident r) e = ''[ERROR] Failed to read policies: '' @ e"

text \<open>
  \<open>reports_failure r tr\<close>: no call of \<open>tr\<close> but the last failed, and if the last failed then
  \<open>r\<close> is its wrapped error.
\<close>

definition reports_failure :: "error option \<Rightarrow> event list \<Rightarrow> bool" where
  "reports_failure r tr =
     (list_all (\<lambda>ev. event_error ev = None) (butlast tr) \<and>
      (tr = [] \<or> (case event_error (last tr) of None \<Rightarrow> True
                  | Some e \<Rightarrow> r = Some (wrapped (last tr) e))))"

text \<open>\<open>all_ok evs\<close>: none of the calls \<open>evs\<close> failed.\<close>

definition all_ok :: "event list \<Rightarrow> bool" where
  "all_ok evs = list_all (\<lambda>ev. event_error ev = None) evs"

text \<open>
  \<open>maps_ok keys acc evs r\<close>: what the loop over \<open>keys\<close> has done when it started with
  \<open>keyMap = acc\<close>, made the calls \<open>evs\<close> and ended with \<open>r\<close>. An error is the wrapped error
  of the last call; a key map is \<open>acc\<close> followed by one entry per key, in order.
\<close>

definition maps_ok :: "Key list \<Rightarrow> tfvalue list \<Rightarrow> event list \<Rightarrow> (error + tfvalue list) \<Rightarrow> bool" where
  "maps_ok keys acc evs r =
     (all_ok (butlast evs) \<and>
      (case r of
         Inl x \<Rightarrow> evs \<noteq> [] \<and> (case event_error (last evs) of None \<Rightarrow> False
                               | Some e \<Rightarrow> x = wrapped (last evs) e)
       | Inr keyMap \<Rightarrow> all_ok evs \<and> length keyMap = length acc + length keys
            \<and> take (length acc) keyMap = acc
            \<and> list_all2 carries_key keys (drop (length acc) keyMap)))"

text \<open>
  \<open>fetch_ok evs r\<close>: what a fetch has done when it made the calls \<open>evs\<close> and ended with
  \<open>r\<close>: at least one call, none but the last failed, and an error is the wrapped error of
  the last call.
\<close>

definition fetch_ok :: "event list \<Rightarrow> (error + Key list) \<Rightarrow> bool" where
  "fetch_ok evs r =
     (evs \<noteq> [] \<and> all_ok (butlast evs) \<and>
      (case r of
         Inl x \<Rightarrow> (case event_error (last evs) of None \<Rightarrow> False
                   | Some e \<Rightarrow> x = wrapped (last evs) e)
       | Inr ks \<Rightarrow> event_error (last evs) = None))"

text \<open>
  \<open>run_ok instanceID d r d'\<close>: a run that ends with an error leaves the resource data as it
  was; a run that ends without one has set the ID, \<open>keys\<close> and \<open>instance_id\<close>.
\<close>

definition run_ok :: "string \<Rightarrow> ResourceData \<Rightarrow> error option \<Rightarrow> ResourceData \<Rightarrow> bool" where
  "run_ok instanceID d r d' =
     (case r of
        Some x \<Rightarrow> d' = d
      | None \<Rightarrow> (case attrs d' ''keys'' of
                   Some (VList keyMap) \<Rightarrow> d' = store_keys instanceID keyMap d
                 | _ \<Rightarrow> False))"

text \<open>
  \<open>answered w n evs\<close>: the calls \<open>evs\<close> are \<open>GetKeys\<close> calls made as the \<open>n\<close>-th and following
  SDK calls, and each records the answer the world \<open>w\<close> gives to it.
\<close>

fun answered :: "kms_world \<Rightarrow> nat \<Rightarrow> event list \<Rightarrow> bool" where
  "answered w n [] = True"
| "answered w n (GetKeysEv lim at r # evs) =
     (r = GetKeys_answer w n lim at \<and> answered w (Suc n) evs)"
| "answered w n (_ # evs) = False"

text \<open>Whether an event is a \<open>GetPolicies\<close> call.\<close>

fun is_GetPolicies :: "event \<Rightarrow> bool" where
  "is_GetPolicies (GetPoliciesEv ident r) = True"
| "is_GetPolicies _ = False"


section \<open>Vocabulary for the properties of the project data source\<close>

text \<open>\<open>keeps_id rest\<close>: a run of \<open>rest\<close> that ends without diagnostics leaves the resource ID alone.\<close>

definition keeps_id :: "(ResourceData \<Rightarrow> (diagnostics \<times> ResourceData) outcome) \<Rightarrow> bool" where
  "keeps_id rest = (\<forall>d d'. rest d = Returned ([], d') \<longrightarrow> rid d' = rid d)"

text \<open>
  \<open>recorded w n evs\<close>: the events \<open>evs\<close>, made as the \<open>n\<close>-th and following SDK calls, each hold
  the answer the world \<open>w\<close> gives to that call.
\<close>

fun answer_of :: "kms_world \<Rightarrow> nat \<Rightarrow> event \<Rightarrow> bool" where
  "answer_of w n (GetResourceInstanceEv ident instanceData resp err) =
     (GetResourceInstance_answer w n ident = (instanceData, resp, err))"
| "answer_of w n (GetKeysEv lim at r) = (r = GetKeys_answer w n lim at)"
| "answer_of w n (GetKeyEv ident r) = (r = GetKey_answer w n ident)"
| "answer_of w n (GetPoliciesEv ident r) = (r = GetPolicies_answer w n ident)"

fun recorded :: "kms_world \<Rightarrow> nat \<Rightarrow> event list \<Rightarrow> bool" where
  "recorded w n [] = True"
| "recorded w n (ev # evs) = (answer_of w n ev \<and> recorded w (Suc n) evs)"


section \<open>Concrete worlds and configurations\<close>

definition example_key :: Key where
  "example_key = \<lparr>ID = ''key-1'', Name = ''mykey'', CRN = ''crn:key-1'', Extractable = False,
     Aliases = [], KeyRingID = ''default''\<rparr>"

text \<open>A world in which every call succeeds and every page holds one key.\<close>

definition example_world :: kms_world where
  "example_world = \<lparr>KeyManagementAPI = None, ResourceControllerV2API = None,
     GetResourceInstance_answer = (\<lambda>n ident. (Some \<lparr>Extensions = []\<rparr>, ''200'', None)),
     KmsEndpointURL = (\<lambda>endpointType extensions. Inr ''https://us-south.kms.cloud.ibm.com''),
     GetKeys_answer = (\<lambda>n lim off. Inr \<lparr>Metadata = \<lparr>NumberOfKeys = 1\<rparr>, Keys = [example_key]\<rparr>),
     GetKey_answer = (\<lambda>n ident. Inr example_key),
     GetPolicies_answer = (\<lambda>n ident. Inr []),
     FlattenKeyPolicies = (\<lambda>policies. VList [])\<rparr>"

definition negative_limit_config :: ResourceData where
  "negative_limit_config = \<lparr>rid = None,
     attrs = [''instance_id'' \<mapsto> VStr ''guid-1'', ''endpoint_type'' \<mapsto> VStr ''public'',
              ''key_name'' \<mapsto> VStr ''mykey'', ''limit'' \<mapsto> VInt (- 1)]\<rparr>"

definition example_pi_config :: ResourceData where
  "example_pi_config = \<lparr>rid = None,
     attrs = [''pi_cloud_instance_id'' \<mapsto> VStr ''inst-1'', ''pi_storage_type'' \<mapsto> VStr ''tier1'']\<rparr>"

definition example_capacity :: StorageTypeCapacity where
  "example_capacity = \<lparr>
     MaximumStorageAllocation =
       Some \<lparr>msa_MaxAllocationSize = Some 500, msa_StoragePool = Some ''Tier1-Flash-1'',
             msa_StorageType = Some ''tier1''\<rparr>,
     StoragePoolsCapacity =
       [Some \<lparr>sp_MaxAllocationSize = Some 500, sp_PoolName = ''Tier1-Flash-1'',
              sp_StorageType = ''tier1'', sp_TotalCapacity = 1000\<rparr>,
        Some \<lparr>sp_MaxAllocationSize = Some 300, sp_PoolName = ''Tier1-Flash-2'',
              sp_StorageType = ''tier1'', sp_TotalCapacity = 800\<rparr>]\<rparr>"

definition example_pi_world :: pi_world where
  "example_pi_world = \<lparr>IBMPISession = None,
     GetStorageTypeCapacity = (\<lambda>cloudInstanceID storageType. Inr example_capacity),
     Flatten = VMap\<rparr>"

text \<open>The resource data the handler leaves for \<open>example_capacity\<close>.\<close>

definition example_pi_state :: ResourceData where
  "example_pi_state = \<lparr>rid = Some ''inst-1/tier1'',
     attrs = [''pi_cloud_instance_id'' \<mapsto> VStr ''inst-1'', ''pi_storage_type'' \<mapsto> VStr ''tier1'',
              ''maximum_storage_allocation'' \<mapsto>
                VMap [(''max_allocation_size'', VInt 500), (''storage_pool'', VStr ''Tier1-Flash-1''),
                      (''storage_type'', VStr ''tier1'')],
              ''storage_pools_capacity'' \<mapsto>
                VList [VMap [(''max_allocation_size'', VInt 500), (''pool_name'', VStr ''Tier1-Flash-1''),
                             (''storage_type'', VStr ''tier1''), (''total_capacity'', VInt 1000)],
                       VMap [(''max_allocation_size'', VInt 300), (''pool_name'', VStr ''Tier1-Flash-2''),
                             (''storage_type'', VStr ''tier1''), (''total_capacity'', VInt 800)]]]\<rparr>"

text \<open>An answer whose \<open>MaximumStorageAllocation\<close> lacks \<open>maxAllocationSize\<close>.\<close>

definition nil_size_capacity :: StorageTypeCapacity where
  "nil_size_capacity = \<lparr>
     MaximumStorageAllocation =
       Some \<lparr>msa_MaxAllocationSize = None, msa_StoragePool = Some ''Tier1-Flash-1'',
             msa_StorageType = Some ''tier1''\<rparr>,
     StoragePoolsCapacity = []\<rparr>"

definition nil_size_pi_world :: pi_world where
  "nil_size_pi_world = \<lparr>IBMPISession = None,
     GetStorageTypeCapacity = (\<lambda>cloudInstanceID storageType. Inr nil_size_capacity),
     Flatten = VMap\<rparr>"

text \<open>A world in which every call succeeds and every page is full.\<close>

definition full_pages_world :: kms_world where
  "full_pages_world = \<lparr>KeyManagementAPI = None, ResourceControllerV2API = None,
     GetResourceInstance_answer = (\<lambda>n ident. (Some \<lparr>Extensions = []\<rparr>, ''200'', None)),
     KmsEndpointURL = (\<lambda>endpointType extensions. Inr ''https://us-south.kms.cloud.ibm.com''),
     GetKeys_answer = (\<lambda>n lim off.
        Inr \<lparr>Metadata = \<lparr>NumberOfKeys = lim\<rparr>, Keys = replicate (nat lim) example_key\<rparr>),
     GetKey_answer = (\<lambda>n ident. Inr example_key),
     GetPolicies_answer = (\<lambda>n ident. Inr []),
     FlattenKeyPolicies = (\<lambda>policies. VList [])\<rparr>"


definition example_crn :: string where
  "example_crn = ''crn:v1:bluemix:public:kms:us-south:a/acct:guid-1::''"

text \<open>A configuration that names the instance by its CRN and the key by its name.\<close>

definition crn_name_config :: ResourceData where
  "crn_name_config = \<lparr>rid = None,
     attrs = [''instance_id'' \<mapsto> VStr example_crn, ''endpoint_type'' \<mapsto> VStr ''public'',
              ''key_name'' \<mapsto> VStr ''mykey'']\<rparr>"

text \<open>A world in which \<open>GetResourceInstance\<close> fails.\<close>

definition no_instance_world :: kms_world where
  "no_instance_world = example_world\<lparr>
     GetResourceInstance_answer := (\<lambda>n ident. (None, ''404'', Some ''not found''))\<rparr>"



text \<open>A project configuration with one output and no nested parts.\<close>

definition example_project_config :: ProjectConfig where
  "example_project_config = \<lparr>pc_Version = Some 1, pc_IsDraft = Some False,
     pc_NeedsAttentionState = [], pc_CreatedAt = None, pc_ModifiedAt = None, pc_LastSavedAt = None,
     pc_Outputs = [\<lparr>ov_Name = Some ''endpoint'', ov_Description = None, ov_Value = VStr ''https://x''\<rparr>],
     pc_Project = None, pc_Schematics = None, pc_State = Some ''approved'',
     pc_UpdateAvailable = None, pc_Href = None, pc_Definition = None,
     pc_ApprovedVersion = None, pc_DeployedVersion = None\<rparr>"

text \<open>
  A world in which every call succeeds; \<open>json.Marshal\<close> rejects the values that are not
  JSON values, and \<open>json.Unmarshal\<close> leaves nil for the empty input.
\<close>

definition example_project_world :: project_world where
  "example_project_world = \<lparr>ProjectV1 = None,
     GetConfigWithContext = (\<lambda>projectID ident. Inr example_project_config),
     d_Set_error = (\<lambda>k v. None),
     stringify = (\<lambda>v. case v of VStr s \<Rightarrow> s | _ \<Rightarrow> ''{}''),
     IntValue = (\<lambda>p. case p of None \<Rightarrow> 0 | Some i \<Rightarrow> i),
     DateTimeToString = (\<lambda>p. case p of None \<Rightarrow> [] | Some s \<Rightarrow> s),
     Sprintf_v = (\<lambda>v. case v of VStr s \<Rightarrow> s | _ \<Rightarrow> ''{}''),
     json_Marshal = (\<lambda>v. case v of VOther s \<Rightarrow> ([], Some (''json: unsupported value: '' @ s))
                              | _ \<Rightarrow> (''{}'', None)),
     json_Unmarshal = (\<lambda>b. if b = [] then VNil else VMap [])\<rparr>"

definition example_project_request :: ResourceData where
  "example_project_request = \<lparr>rid = None,
     attrs = [''project_id'' \<mapsto> VStr ''proj-1'', ''project_config_id'' \<mapsto> VStr ''cfg-1'']\<rparr>"






text \<open>A configuration that names the key by its name and asks for the private endpoint.\<close>

definition private_name_config :: "string \<rightharpoonup> tfvalue" where
  "private_name_config = [''instance_id'' \<mapsto> VStr ''guid-1'', ''key_name'' \<mapsto> VStr ''mykey'',
     ''endpoint_type'' \<mapsto> VStr ''private'']"

section \<open>The pagination loop\<close>

lemma fetch_loop_returns_lt:
  "fetch_loop w limitVal offset totalKeys tr = Some y \<Longrightarrow> offset < limitVal"
  by (rule fetch_loop.raw_induct
        [where P = "\<lambda>w limitVal offset totalKeys tr y. offset < limitVal"])
     (auto split: if_splits)

lemma fetch_loop_spins:
  "\<not> offset < limitVal \<Longrightarrow> fetch_loop w limitVal offset totalKeys tr = None"
  using fetch_loop_returns_lt by (cases "fetch_loop w limitVal offset totalKeys tr") auto

lemma fetch_loop_pages:
  "0 \<le> offset \<Longrightarrow> offset < L \<Longrightarrow>
   \<exists>r evs. fetch_loop w L offset totalKeys tr = Some (r, tr @ evs) \<and> evs \<noteq> []
     \<and> paged L offset evs \<and> sum_list (map requested evs) \<le> L - offset
     \<and> (\<forall>e \<in> set (butlast evs). \<not> stops_after L e) \<and> stops_after L (last evs)
     \<and> loop_result_ok totalKeys evs r \<and> answered w (length tr) evs"
proof (induction "nat (L - offset)" arbitrary: offset totalKeys tr rule: less_induct)
  case less
  show ?case
  proof (cases "L - offset < pageSize")
    case True
    with less.prems show ?thesis
      by (subst fetch_loop.simps)
         (auto simp: GetKeys_def pageSize_def loop_result_ok_def split: sum.splits)
  next
    case False
    let ?r = "GetKeys_answer w (length tr) pageSize offset"
    let ?tr = "tr @ [GetKeysEv pageSize offset ?r]"
    show ?thesis
    proof (cases ?r)
      case (Inl err)
      with False less.prems show ?thesis
        by (subst fetch_loop.simps)
           (auto simp: GetKeys_def pageSize_def loop_result_ok_def split: sum.splits)
    next
      case (Inr keys)
      show ?thesis
      proof (cases "NumberOfKeys (Metadata keys) < pageSize \<or> offset + pageSize = L")
        case True
        with Inr False less.prems show ?thesis
          by (subst fetch_loop.simps)
             (auto simp: GetKeys_def pageSize_def loop_result_ok_def split: sum.splits)
      next
        case stop: False
        have lt: "offset + pageSize < L" using False stop by (simp add: pageSize_def)
        have m: "nat (L - (offset + pageSize)) < nat (L - offset)"
          using lt by (simp add: pageSize_def)
        have ge: "0 \<le> offset + pageSize" using less.prems by (simp add: pageSize_def)
        from less.hyps[OF m ge lt, of "totalKeys @ Keys keys" ?tr]
        obtain r evs where
          run: "fetch_loop w L (offset + pageSize) (totalKeys @ Keys keys) ?tr = Some (r, ?tr @ evs)"
          and ne: "evs \<noteq> []"
          and pg: "paged L (offset + pageSize) evs"
          and sm: "sum_list (map requested evs) \<le> L - (offset + pageSize)"
          and nb: "\<forall>e \<in> set (butlast evs). \<not> stops_after L e"
          and st: "stops_after L (last evs)"
          and ok: "loop_result_ok (totalKeys @ Keys keys) evs r"
          and an: "answered w (length ?tr) evs"
          by blast
        let ?evs = "GetKeysEv pageSize offset ?r # evs"
        have step: "fetch_loop w L offset totalKeys tr = Some (r, tr @ ?evs)"
          using Inr False stop less.prems run
          by (subst fetch_loop.simps) (simp add: GetKeys_def)
        have "paged L offset ?evs" using pg False by (simp add: min_def)
        moreover have "sum_list (map requested ?evs) \<le> L - offset" using sm by simp
        moreover have "\<forall>e \<in> set (butlast ?evs). \<not> stops_after L e"
          using nb ne stop Inr by auto
        moreover have "stops_after L (last ?evs)" using st ne by simp
        moreover have "loop_result_ok totalKeys ?evs r"
          using ok ne Inr by (auto simp: loop_result_ok_def split: sum.splits)
        moreover have "?evs \<noteq> []" by simp
        moreover have "answered w (length tr) ?evs" using an by simp
        ultimately show ?thesis using step by blast
      qed
    qed
  qed
qed

lemma fetch_keys_negative: "L < 0 \<Longrightarrow> fetch_keys w L tr = None"
  by (simp add: fetch_keys_def fetch_loop_spins)


text \<open>
  C2. The loop does not end for a negative limit. When the sessions, \<open>GetResourceInstance\<close>
  and \<open>KmsEndpointURL\<close> succeed, \<open>key_name\<close> is set and \<open>limit\<close> is negative, the test
  \<open>offset < limitVal\<close> fails at once, nothing in the loop body runs, the loop has no other
  exit, and the handler never returns.
\<close>

theorem kms_read_negative_limit_never_returns:
  assumes "KeyManagementAPI w = None" and "ResourceControllerV2API w = None"
    and "GetResourceInstance_answer w 0 (crn_instance_id (Get_string d ''instance_id''))
           = (Some inst, resp, None)"
    and "KmsEndpointURL w (Get_string d ''endpoint_type'') (Extensions inst) = Inr url"
    and "Get_string d ''key_name'' \<noteq> []"
    and "Get_int d ''limit'' < 0"
  shows "dataSourceIBMKMSKeyRead w d = None"
  using assms
  by (simp add: dataSourceIBMKMSKeyRead_def GetResourceInstance_def GetOk_def read_by_name_def
        fetch_keys_negative)

theorem kms_read_negative_limit_never_returns_witness:
  "dataSourceIBMKMSKeyRead example_world negative_limit_config = None"
  by (rule kms_read_negative_limit_never_returns [where inst = "\<lparr>Extensions = []\<rparr>"
        and resp = "''200''" and url = "''https://us-south.kms.cloud.ibm.com''"])
     (simp_all add: example_world_def negative_limit_config_def Get_string_def Get_int_def
        crn_instance_id_def)

section \<open>The capacity data source\<close>

lemmas Attr_defs = Attr_MaximumStorageAllocation_def Attr_StoragePoolsCapacity_def
  Attr_MaxAllocationSize_def Attr_StoragePool_def Attr_StorageType_def Attr_PoolName_def
  Attr_TotalCapacity_def

lemma sp_data_carries: "sp_data p = Returned entry \<Longrightarrow> carries_pool p entry"
  by (auto simp: sp_data_def carries_pool_def Attr_defs split: option.splits)

lemma pools_result_entries:
  "pools_result ps acc = Returned result \<Longrightarrow>
     \<exists>new. result = acc @ new \<and> list_all2 carries_pool ps new"
proof (induction ps arbitrary: acc)
  case Nil
  then show ?case by simp
next
  case (Cons p ps)
  from Cons.prems obtain entry where e: "sp_data p = Returned entry"
    and rest: "pools_result ps (acc @ [entry]) = Returned result"
    by (auto split: outcome.splits)
  from Cons.IH[OF rest] obtain new where "result = (acc @ [entry]) @ new" "list_all2 carries_pool ps new"
    by blast
  with sp_data_carries[OF e] have "result = acc @ (entry # new) \<and> list_all2 carries_pool (p # ps) (entry # new)"
    by simp
  then show ?case by blast
qed

lemma pi_read_returns:
  assumes "dataSourceIBMPIStorageTypeCapacityRead w d = Returned ([], d')"
  shows "\<exists>stc result.
           GetStorageTypeCapacity w (Get_string d PICloudInstanceId) (Get_string d PITypeName) = Inr stc
         \<and> pools_result (StoragePoolsCapacity stc) [] = Returned result
         \<and> rid d' = Some (Get_string d PICloudInstanceId @ ''/'' @ Get_string d PITypeName)
         \<and> attrs d' Attr_StoragePoolsCapacity = Some (VList result)
         \<and> attrs d' Attr_MaximumStorageAllocation =
             (case MaximumStorageAllocation stc of None \<Rightarrow> attrs d Attr_MaximumStorageAllocation
              | Some msa \<Rightarrow> (case msa_data msa of Returned data \<Rightarrow> Some (Flatten w data) | Panicked p \<Rightarrow> None))"
  using assms
  by (auto simp: dataSourceIBMPIStorageTypeCapacityRead_def Let_def SetId_def d_Set_def
        Attr_MaximumStorageAllocation_def Attr_StoragePoolsCapacity_def
      split: option.splits sum.splits outcome.splits)

lemma pi_read_pool_nil_dereference:
  assumes "IBMPISession w = None"
    and "GetStorageTypeCapacity w (Get_string d PICloudInstanceId) (Get_string d PITypeName) = Inr stc"
    and "MaximumStorageAllocation stc = None"
    and "StoragePoolsCapacity stc = [Some sp]"
    and "sp_MaxAllocationSize sp = None"
  shows "dataSourceIBMPIStorageTypeCapacityRead w d = Panicked nil_dereference"
  using assms by (simp add: dataSourceIBMPIStorageTypeCapacityRead_def sp_data_def)


text \<open>
  C6. When the handler returns without diagnostics, reading a data source whose
  \<open>maximum_storage_allocation\<close> was not set before: \<open>storage_pools_capacity\<close> is a list with
  one entry per pool of the response, in the same order, each entry carrying that pool's
  maximum allocation size, pool name, storage type and total capacity; and
  \<open>maximum_storage_allocation\<close> is set exactly when the response's
  \<open>MaximumStorageAllocation\<close> is not nil.
\<close>

theorem pi_read_flattens_response:
  assumes "dataSourceIBMPIStorageTypeCapacityRead w d = Returned ([], d')"
    and "attrs d ''maximum_storage_allocation'' = None"
  shows "\<exists>stc result.
           GetStorageTypeCapacity w (Get_string d PICloudInstanceId) (Get_string d PITypeName) = Inr stc
         \<and> attrs d' ''storage_pools_capacity'' = Some (VList result)
         \<and> list_all2 carries_pool (StoragePoolsCapacity stc) result
         \<and> (attrs d' ''maximum_storage_allocation'' \<noteq> None
              \<longleftrightarrow> MaximumStorageAllocation stc \<noteq> None)"
proof -
  from pi_read_returns[OF assms(1)] obtain stc result where
    g: "GetStorageTypeCapacity w (Get_string d PICloudInstanceId) (Get_string d PITypeName) = Inr stc"
    and p: "pools_result (StoragePoolsCapacity stc) [] = Returned result"
    and a: "attrs d' Attr_StoragePoolsCapacity = Some (VList result)"
    and m: "attrs d' Attr_MaximumStorageAllocation =
             (case MaximumStorageAllocation stc of None \<Rightarrow> attrs d Attr_MaximumStorageAllocation
              | Some msa \<Rightarrow> (case msa_data msa of Returned data \<Rightarrow> Some (Flatten w data) | Panicked p \<Rightarrow> None))"
    by blast
  from pools_result_entries[OF p] have l: "list_all2 carries_pool (StoragePoolsCapacity stc) result"
    by simp
  have "attrs d' ''maximum_storage_allocation'' \<noteq> None \<longleftrightarrow> MaximumStorageAllocation stc \<noteq> None"
  proof (cases "MaximumStorageAllocation stc")
    case None
    with m assms(2) show ?thesis by (simp add: Attr_MaximumStorageAllocation_def)
  next
    case (Some msa)
    from assms(1) g Some obtain data where "msa_data msa = Returned data"
      by (auto simp: dataSourceIBMPIStorageTypeCapacityRead_def Let_def
          split: option.splits outcome.splits)
    with m Some show ?thesis by (simp add: Attr_MaximumStorageAllocation_def)
  qed
  with g a l show ?thesis by (auto simp: Attr_StoragePoolsCapacity_def)
qed


theorem pi_read_flattens_response_witness:
  "dataSourceIBMPIStorageTypeCapacityRead example_pi_world example_pi_config
     = Returned ([], example_pi_state)
   \<and> attrs example_pi_config ''maximum_storage_allocation'' = None
   \<and> (\<exists>stc result.
         GetStorageTypeCapacity example_pi_world (Get_string example_pi_config PICloudInstanceId)
           (Get_string example_pi_config PITypeName) = Inr stc
       \<and> attrs example_pi_state ''storage_pools_capacity'' = Some (VList result)
       \<and> list_all2 carries_pool (StoragePoolsCapacity stc) result
       \<and> (attrs example_pi_state ''maximum_storage_allocation'' \<noteq> None
            \<longleftrightarrow> MaximumStorageAllocation stc \<noteq> None))"
proof -
  have run: "dataSourceIBMPIStorageTypeCapacityRead example_pi_world example_pi_config
               = Returned ([], example_pi_state)"
    by (simp add: dataSourceIBMPIStorageTypeCapacityRead_def example_pi_world_def
          example_pi_config_def example_pi_state_def example_capacity_def Get_string_def
          PICloudInstanceId_def PITypeName_def msa_data_def sp_data_def SetId_def d_Set_def
          Attr_defs)
  have unset: "attrs example_pi_config ''maximum_storage_allocation'' = None"
    by (simp add: example_pi_config_def)
  from pi_read_flattens_response [OF run unset] run unset show ?thesis by blast
qed

text \<open>
  C9. The handler dereferences \<open>MaxAllocationSize\<close> of a non-nil
  \<open>MaximumStorageAllocation\<close> without looking at it: when the SDK answers with a
  \<open>MaximumStorageAllocation\<close> whose \<open>MaxAllocationSize\<close> is nil, the handler panics with a
  nil-pointer dereference.
\<close>

theorem pi_read_nil_dereference:
  assumes "IBMPISession w = None"
    and "GetStorageTypeCapacity w (Get_string d PICloudInstanceId) (Get_string d PITypeName) = Inr stc"
    and "MaximumStorageAllocation stc = Some msa"
    and "msa_MaxAllocationSize msa = None"
  shows "dataSourceIBMPIStorageTypeCapacityRead w d = Panicked nil_dereference"
  using assms by (simp add: dataSourceIBMPIStorageTypeCapacityRead_def msa_data_def)


theorem pi_read_nil_dereference_witness:
  "dataSourceIBMPIStorageTypeCapacityRead nil_size_pi_world example_pi_config
     = Panicked nil_dereference"
  by (rule pi_read_nil_dereference
        [where stc = nil_size_capacity
           and msa = "\<lparr>msa_MaxAllocationSize = None, msa_StoragePool = Some ''Tier1-Flash-1'',
                        msa_StorageType = Some ''tier1''\<rparr>"])
     (simp_all add: nil_size_pi_world_def nil_size_capacity_def)

section \<open>The project data source\<close>

lemma keeps_id_return: "keeps_id (\<lambda>d. Returned ([], d))"
  by (simp add: keeps_id_def)

lemma keeps_id_checked_Set:
  "keeps_id rest \<Longrightarrow> keeps_id (\<lambda>d. checked_Set w k v d rest)"
  unfolding keeps_id_def
proof (intro allI impI)
  fix d d'
  assume r: "\<forall>d d'. rest d = Returned ([], d') \<longrightarrow> rid d' = rid d"
    and c: "checked_Set w k v d rest = Returned ([], d')"
  from c have "rest (d_Set k v d) = Returned ([], d')"
    by (cases "d_Set_error w k v") (simp_all add: checked_Set_def tf_error_def)
  with r have "rid d' = rid (d_Set k v d)" by blast
  then show "rid d' = rid d" by (simp add: d_Set_def)
qed

lemma keeps_id_set_maps:
  assumes "keeps_id rest"
  shows "keeps_id (\<lambda>d. set_maps w k toMap items d rest)"
  unfolding keeps_id_def
proof (intro allI impI)
  fix d d'
  assume c: "set_maps w k toMap items d rest = Returned ([], d')"
  then obtain ms where "checked_Set w k (VList ms) d rest = Returned ([], d')"
    by (auto simp: set_maps_def tf_error_def split: outcome.splits sum.splits)
  with keeps_id_checked_Set[OF assms, of w k "VList ms"] show "rid d' = rid d"
    by (simp add: keeps_id_def)
qed

lemma keeps_id_set_attributes: "keeps_id (set_attributes w projectConfig)"
  unfolding set_attributes_def
  by (intro keeps_id_checked_Set keeps_id_set_maps keeps_id_return)

lemma project_read_returns:
  assumes "dataSourceIbmProjectConfigRead w d = Returned ([], d')"
  shows "\<exists>projectConfig.
           ProjectV1 w = None
         \<and> GetConfigWithContext w (Get_string d ''project_id'') (Get_string d ''project_config_id'')
               = Inr projectConfig
         \<and> rid d' = Some (Get_string d ''project_id'' @ ''/'' @ Get_string d ''project_config_id'')"
proof -
  let ?id = "Get_string d ''project_id'' @ ''/'' @ Get_string d ''project_config_id''"
  from assms have s: "ProjectV1 w = None"
    by (cases "ProjectV1 w") (simp_all add: dataSourceIbmProjectConfigRead_def tf_error_def)
  from assms s obtain projectConfig where
    g: "GetConfigWithContext w (Get_string d ''project_id'') (Get_string d ''project_config_id'')
          = Inr projectConfig"
    by (cases "GetConfigWithContext w (Get_string d ''project_id'') (Get_string d ''project_config_id'')")
       (simp_all add: dataSourceIbmProjectConfigRead_def tf_error_def)
  from assms s g have "set_attributes w projectConfig (SetId ?id d) = Returned ([], d')"
    by (simp add: dataSourceIbmProjectConfigRead_def)
  with keeps_id_set_attributes[of w projectConfig] have "rid d' = rid (SetId ?id d)"
    by (simp add: keeps_id_def)
  with s g show ?thesis by (simp add: SetId_def)
qed

section \<open>The key-protect data source\<close>

lemma paged_no_error:
  "paged L off evs \<Longrightarrow> ev \<in> set evs \<Longrightarrow> \<not> stops_after L ev \<Longrightarrow> event_error ev = None"
proof (induction L off evs rule: paged.induct)
  case (2 L off lim at r evs)
  then show ?case by (auto split: sum.splits)
qed simp_all

lemma paged_last_wrapped:
  "paged L off evs \<Longrightarrow> evs \<noteq> [] \<Longrightarrow> wrapped (last evs) e = get_keys_failed e"
proof (induction L off evs rule: paged.induct)
  case (2 L off lim at r evs)
  then show ?case by (cases evs) (auto simp: get_keys_failed_def)
qed simp_all

lemma fetch_once_ok:
  "fetch_ok [GetKeysEv lim at a] (case a of Inl err \<Rightarrow> Inl (get_keys_failed err) | Inr keys \<Rightarrow> Inr (f keys))"
  by (cases a) (simp_all add: fetch_ok_def all_ok_def get_keys_failed_def)

lemma fetch_keys_zero:
  "fetch_keys w 0 tr = Some (r, tr') \<Longrightarrow> \<exists>evs. tr' = tr @ evs \<and> fetch_ok evs r"
proof -
  assume a: "fetch_keys w 0 tr = Some (r, tr')"
  let ?a = "GetKeys_answer w (length tr) 0 0"
  have "tr' = tr @ [GetKeysEv 0 0 ?a]"
    using a by (cases ?a) (simp_all add: fetch_keys_def GetKeys_def)
  moreover have "r = (case ?a of Inl err \<Rightarrow> Inl (get_keys_failed err) | Inr keys \<Rightarrow> Inr ([] @ Keys keys))"
    using a by (cases ?a) (simp_all add: fetch_keys_def GetKeys_def)
  ultimately show ?thesis using fetch_once_ok[of 0 0 ?a "\<lambda>keys. [] @ Keys keys"] by metis
qed


lemma fetch_keys_loop:
  assumes "L \<noteq> 0" and "fetch_keys w L tr = Some (r, tr')"
  shows "\<exists>evs. tr' = tr @ evs \<and> fetch_ok evs r"
proof -
  from assms have run: "fetch_loop w L 0 [] tr = Some (r, tr')" by (simp add: fetch_keys_def)
  then have pos: "0 < L" by (rule fetch_loop_returns_lt)
  from fetch_loop_pages[of 0 L w "[]" tr] pos
  obtain r0 evs where r0: "fetch_loop w L 0 [] tr = Some (r0, tr @ evs)" and ne: "evs \<noteq> []"
    and pg: "paged L 0 evs"
    and nb: "\<forall>e \<in> set (butlast evs). \<not> stops_after L e"
    and ok: "loop_result_ok [] evs r0"
    by auto
  from r0 run have eq: "r0 = r" "tr' = tr @ evs" by simp_all
  have "\<And>ev. ev \<in> set (butlast evs) \<Longrightarrow> event_error ev = None"
  proof -
    fix ev assume m: "ev \<in> set (butlast evs)"
    then have "ev \<in> set evs" by (rule in_set_butlastD)
    moreover from m nb have "\<not> stops_after L ev" by simp
    ultimately show "event_error ev = None" using pg by (rule paged_no_error[rotated])
  qed
  then have a: "all_ok (butlast evs)" by (simp add: all_ok_def list_all_iff)
  have w: "\<And>e. wrapped (last evs) e = get_keys_failed e"
    using pg ne by (rule paged_last_wrapped)
  have "fetch_ok evs r"
  proof (cases r)
    case (Inl x)
    with ok eq a ne w show ?thesis
      by (simp add: fetch_ok_def loop_result_ok_def split: option.splits)
  next
    case (Inr ks)
    with ok eq a ne show ?thesis by (simp add: fetch_ok_def loop_result_ok_def)
  qed
  with eq show ?thesis by blast
qed

lemma fetch_keys_returns:
  "fetch_keys w L tr = Some (r, tr') \<Longrightarrow> \<exists>evs. tr' = tr @ evs \<and> fetch_ok evs r"
  by (cases "L = 0") (simp_all add: fetch_keys_zero fetch_keys_loop)

lemma key_instance_returns:
  "key_instance w tr key = (r, tr') \<Longrightarrow>
     tr' = tr @ [GetPoliciesEv (ID key) (GetPolicies_answer w (length tr) (ID key))]
     \<and> (case r of
           Inl x \<Rightarrow> (\<exists>e. GetPolicies_answer w (length tr) (ID key) = Inl e \<and> x = policies_failed e)
         | Inr entry \<Rightarrow> (\<exists>ps. GetPolicies_answer w (length tr) (ID key) = Inr ps) \<and> carries_key key entry)"
  by (auto simp: key_instance_def GetPolicies_def carries_key_def key_fields_def
      split: sum.splits if_splits)

lemma maps_ok_step:
  assumes "event_error ev = None" and "carries_key key entry"
    and "maps_ok keys (acc @ [entry]) evs r"
  shows "maps_ok (key # keys) acc (ev # evs) r"
proof (cases r)
  case (Inl x)
  with assms(3) have ne: "evs \<noteq> []" and a: "all_ok (butlast evs)"
    and l: "case event_error (last evs) of None \<Rightarrow> False | Some e \<Rightarrow> x = wrapped (last evs) e"
    by (simp_all add: maps_ok_def)
  with Inl assms(1) show ?thesis by (simp add: maps_ok_def all_ok_def split: option.splits)
next
  case (Inr keyMap)
  define rest where "rest = drop (Suc (length acc)) keyMap"
  from Inr assms(3) have a: "all_ok evs" and l: "length keyMap = length acc + 1 + length keys"
    and t: "take (Suc (length acc)) keyMap = acc @ [entry]"
    and c: "list_all2 carries_key keys rest"
    by (simp_all add: maps_ok_def rest_def)
  have "keyMap = take (Suc (length acc)) keyMap @ rest" by (simp add: rest_def)
  with t have k: "keyMap = acc @ entry # rest" by simp
  have t1: "take (length acc) keyMap = acc" by (subst k) simp
  have d: "drop (length acc) keyMap = entry # rest" by (subst k) simp
  have ab: "all_ok (butlast (ev # evs))"
    using a assms(1) by (auto simp: all_ok_def list_all_iff dest: in_set_butlastD)
  have ae: "all_ok (ev # evs)" using a assms(1) by (simp add: all_ok_def)
  show ?thesis using Inr ab ae l t1 d c assms(2) by (simp add: maps_ok_def)
qed

lemma key_maps_returns:
  "key_maps w tr keys acc = (r, tr') \<Longrightarrow> \<exists>evs. tr' = tr @ evs \<and> maps_ok keys acc evs r"
proof (induction keys arbitrary: tr acc)
  case Nil
  then show ?case by (auto simp: maps_ok_def all_ok_def)
next
  case (Cons key keys)
  let ?a = "GetPolicies_answer w (length tr) (ID key)"
  let ?ev = "GetPoliciesEv (ID key) ?a"
  obtain r1 tr1 where ki: "key_instance w tr key = (r1, tr1)" by (cases "key_instance w tr key")
  from key_instance_returns[OF ki] have tr1: "tr1 = tr @ [?ev]"
    and r1: "case r1 of
           Inl x \<Rightarrow> (\<exists>e. ?a = Inl e \<and> x = policies_failed e)
         | Inr entry \<Rightarrow> (\<exists>ps. ?a = Inr ps) \<and> carries_key key entry"
    by auto
  show ?case
  proof (cases r1)
    case (Inl x)
    with Cons.prems ki have "r = Inl x" "tr' = tr1" by auto
    with Inl r1 tr1 have "tr' = tr @ [?ev] \<and> maps_ok (key # keys) acc [?ev] r"
      by (auto simp: maps_ok_def all_ok_def policies_failed_def)
    then show ?thesis by blast
  next
    case (Inr entry)
    with Cons.prems ki have rest: "key_maps w tr1 keys (acc @ [entry]) = (r, tr')" by auto
    from Inr r1 have okev: "event_error ?ev = None" and ck: "carries_key key entry" by auto
    from Cons.IH[OF rest] obtain evs where e1: "tr' = tr1 @ evs"
      and e2: "maps_ok keys (acc @ [entry]) evs r"
      by blast
    have "tr' = tr @ (?ev # evs)" using e1 tr1 by simp
    with maps_ok_step[OF okev ck e2] show ?thesis by blast
  qed
qed

lemma store_keys_run_ok: "run_ok instanceID d None (store_keys instanceID keyMap d)"
  by (simp add: run_ok_def store_keys_def d_Set_def SetId_def)

lemma all_ok_snoc: "all_ok (ys @ [y]) = (all_ok ys \<and> event_error y = None)"
  by (simp add: all_ok_def)

lemma reports_snoc:
  "reports_failure r (ys @ [y]) =
     (all_ok ys \<and> (case event_error y of None \<Rightarrow> True | Some e \<Rightarrow> r = Some (wrapped y e)))"
  by (simp add: reports_failure_def all_ok_def cong: option.case_cong)

lemma reports_Nil: "reports_failure r []"
  by (simp add: reports_failure_def)

lemma all_ok_reports: "all_ok evs \<Longrightarrow> reports_failure r evs"
  by (cases evs rule: rev_cases) (simp_all add: reports_Nil reports_snoc all_ok_snoc)

lemma reports_append:
  assumes "all_ok tr" and "reports_failure r evs"
  shows "reports_failure r (tr @ evs)"
proof (cases evs rule: rev_cases)
  case Nil
  with assms(1) show ?thesis by (simp add: all_ok_reports)
next
  case (snoc ys y)
  with assms(2) have "all_ok ys"
    "case event_error y of None \<Rightarrow> True | Some e \<Rightarrow> r = Some (wrapped y e)"
    by (simp_all add: reports_snoc)
  moreover have "all_ok (tr @ ys) = (all_ok tr \<and> all_ok ys)" by (simp add: all_ok_def)
  ultimately have "reports_failure r ((tr @ ys) @ [y])"
    unfolding reports_snoc using assms(1) by simp
  with snoc show ?thesis by simp
qed

lemma fetch_ok_Inl: "fetch_ok evs (Inl x) \<Longrightarrow> reports_failure (Some x) evs"
  by (cases evs rule: rev_cases) (simp_all add: fetch_ok_def reports_snoc split: option.splits)

lemma fetch_ok_Inr: "fetch_ok evs (Inr ks) \<Longrightarrow> all_ok evs"
  by (cases evs rule: rev_cases) (simp_all add: fetch_ok_def all_ok_snoc)

lemma maps_ok_Inl: "maps_ok keys acc evs (Inl x) \<Longrightarrow> reports_failure (Some x) evs"
  by (cases evs rule: rev_cases) (simp_all add: maps_ok_def reports_snoc split: option.splits)

lemma maps_ok_Inr:
  "maps_ok keys [] evs (Inr keyMap) \<Longrightarrow> all_ok evs \<and> list_all2 carries_key keys keyMap"
  by (simp add: maps_ok_def)



lemma key_instance_policies:
  "key_instance w tr key = (r, tr') \<Longrightarrow> \<exists>ev. tr' = tr @ [ev] \<and> is_GetPolicies ev"
  by (auto simp: key_instance_def GetPolicies_def split: sum.splits)

lemma key_maps_policies:
  "key_maps w tr keys acc = (kr, tr') \<Longrightarrow> \<exists>pol. tr' = tr @ pol \<and> list_all is_GetPolicies pol"
proof (induction keys arbitrary: tr acc)
  case Nil
  then show ?case by simp
next
  case (Cons key keys)
  obtain r1 tr1 where ki: "key_instance w tr key = (r1, tr1)" by (cases "key_instance w tr key")
  from key_instance_policies[OF ki] obtain ev where ev: "tr1 = tr @ [ev]" "is_GetPolicies ev"
    by blast
  show ?case
  proof (cases r1)
    case (Inl x)
    with Cons.prems ki have "tr' = tr1" by simp
    with ev have "tr' = tr @ [ev] \<and> list_all is_GetPolicies [ev]" by simp
    then show ?thesis by blast
  next
    case (Inr entry)
    with Cons.prems ki have "key_maps w tr1 keys (acc @ [entry]) = (kr, tr')" by simp
    from Cons.IH[OF this] obtain pol where "tr' = tr1 @ pol" "list_all is_GetPolicies pol"
      by blast
    with ev have "tr' = tr @ (ev # pol) \<and> list_all is_GetPolicies (ev # pol)" by simp
    then show ?thesis by blast
  qed
qed

lemma read_by_name_after_fetch:
  assumes "fetch_keys w (Get_int d ''limit'') tr = Some (fr, tr1)"
  shows "\<exists>r d' pol. read_by_name w instanceID v d tr = Some (r, d', tr1 @ pol)
           \<and> list_all is_GetPolicies pol
           \<and> (case fr of Inl x \<Rightarrow> r = Some x \<and> pol = [] \<and> d' = d | Inr ks \<Rightarrow> True)"
    (is ?G)
proof (cases fr)
  case (Inl x)
  with assms have "read_by_name w instanceID v d tr = Some (Some x, d, tr1 @ [])"
    by (simp add: read_by_name_def)
  with Inl show ?thesis by (intro exI[of _ "Some x"] exI[of _ d] exI[of _ "[]"]) simp
next
  case (Inr totalKeys)
  let ?m = "if v \<noteq> [] then filter (\<lambda>keyData. Name keyData = v) totalKeys else totalKeys"
  obtain kr tr2 where km: "key_maps w tr1 ?m [] = (kr, tr2)" by (cases "key_maps w tr1 ?m []")
  from key_maps_policies[OF km] obtain pol where pol: "tr2 = tr1 @ pol" "list_all is_GetPolicies pol"
    by blast
  have fin: "\<And>r0 d0 pol0. read_by_name w instanceID v d tr = Some (r0, d0, tr1 @ pol0)
               \<Longrightarrow> list_all is_GetPolicies pol0 \<Longrightarrow> ?G"
  proof -
    fix r0 d0 pol0
    assume "read_by_name w instanceID v d tr = Some (r0, d0, tr1 @ pol0)" "list_all is_GetPolicies pol0"
    then have "read_by_name w instanceID v d tr = Some (r0, d0, tr1 @ pol0)
           \<and> list_all is_GetPolicies pol0
           \<and> (case fr of Inl x \<Rightarrow> r0 = Some x \<and> pol0 = [] \<and> d0 = d | Inr ks \<Rightarrow> True)"
      using Inr by simp
    then show ?G by blast
  qed
  consider (a) "length totalKeys = 0" | (b) "length totalKeys \<noteq> 0" "length ?m = 0"
    | (c) "length totalKeys \<noteq> 0" "length ?m \<noteq> 0" by blast
  then show ?thesis
  proof cases
    case a
    with assms Inr have "\<exists>r d'. read_by_name w instanceID v d tr = Some (r, d', tr1 @ [])"
      by (simp add: read_by_name_def)
    then obtain r d' where "read_by_name w instanceID v d tr = Some (r, d', tr1 @ [])" by blast
    then show ?thesis by (rule fin) simp
  next
    case b
    with assms Inr have "\<exists>r d'. read_by_name w instanceID v d tr = Some (r, d', tr1 @ [])"
      by (simp add: read_by_name_def Let_def)
    then obtain r d' where "read_by_name w instanceID v d tr = Some (r, d', tr1 @ [])" by blast
    then show ?thesis by (rule fin) simp
  next
    case c
    with assms Inr km pol have "\<exists>r d'. read_by_name w instanceID v d tr = Some (r, d', tr1 @ pol)"
      by (cases kr) (simp_all add: read_by_name_def Let_def)
    then obtain r d' where "read_by_name w instanceID v d tr = Some (r, d', tr1 @ pol)" by blast
    then show ?thesis using pol(2) by (rule fin)
  qed
qed

lemma read_one_returns:
  assumes "read_one w instanceID ident d tr = (r, d', tr')"
  shows "\<exists>evs. tr' = tr @ evs \<and> reports_failure r evs \<and> run_ok instanceID d r d'"
proof -
  let ?a = "GetKey_answer w (length tr) ident"
  let ?ev = "GetKeyEv ident ?a"
  show ?thesis
  proof (cases ?a)
    case (Inl e)
    with assms have "r = Some (get_keys_failed e)" "d' = d" "tr' = tr @ [?ev]"
      by (simp_all add: read_one_def GetKey_def)
    moreover have "reports_failure (Some (get_keys_failed e)) ([] @ [?ev])"
      unfolding reports_snoc using Inl by (simp add: all_ok_def get_keys_failed_def)
    ultimately show ?thesis by (intro exI[of _ "[?ev]"]) (simp add: run_ok_def)
  next
    case (Inr key)
    let ?b = "GetPolicies_answer w (Suc (length tr)) (ID key)"
    let ?ev2 = "GetPoliciesEv (ID key) ?b"
    obtain r1 tr1 where ki: "key_instance w (tr @ [?ev]) key = (r1, tr1)"
      by (cases "key_instance w (tr @ [?ev]) key")
    from key_instance_returns[OF ki] have tr1: "tr1 = tr @ [?ev, ?ev2]"
      and r1: "case r1 of
           Inl x \<Rightarrow> (\<exists>e. ?b = Inl e \<and> x = policies_failed e)
         | Inr entry \<Rightarrow> (\<exists>ps. ?b = Inr ps) \<and> carries_key key entry"
      by (simp_all cong: sum.case_cong)
    have ok1: "event_error ?ev = None" using Inr by simp
    show ?thesis
    proof (cases r1)
      case (Inl x)
      with r1 obtain e where e: "?b = Inl e" "x = policies_failed e" by auto
      from assms Inr ki Inl have "r = Some x" "d' = d" "tr' = tr1"
        by (simp_all add: read_one_def GetKey_def)
      moreover have "reports_failure (Some x) ([?ev] @ [?ev2])"
        unfolding reports_snoc using e ok1 by (simp add: all_ok_def policies_failed_def)
      ultimately show ?thesis using tr1 by (intro exI[of _ "[?ev, ?ev2]"]) (simp add: run_ok_def)
    next
      case (Inr entry)
      with r1 obtain ps where "?b = Inr ps" by auto
      then have ok2: "event_error ?ev2 = None" by simp
      from assms \<open>?a = Inr key\<close> ki Inr have "r = None" "d' = store_keys instanceID [entry] d" "tr' = tr1"
        by (simp_all add: read_one_def GetKey_def)
      moreover have "reports_failure None [?ev, ?ev2]"
        using ok1 ok2 by (intro all_ok_reports) (simp add: all_ok_def)
      ultimately show ?thesis using tr1
        by (intro exI[of _ "[?ev, ?ev2]"]) (simp add: store_keys_run_ok)
    qed
  qed
qed

lemma read_by_name_returns:
  assumes "read_by_name w instanceID v d tr = Some (r, d', tr')"
  shows "\<exists>evs. tr' = tr @ evs \<and> reports_failure r evs \<and> run_ok instanceID d r d'"
proof -
  from assms obtain fr tr1 where fk: "fetch_keys w (Get_int d ''limit'') tr = Some (fr, tr1)"
    by (cases "fetch_keys w (Get_int d ''limit'') tr") (auto simp: read_by_name_def)
  from fetch_keys_returns[OF fk] obtain evs1 where tr1: "tr1 = tr @ evs1" and fo: "fetch_ok evs1 fr"
    by blast
  show ?thesis
  proof (cases fr)
    case (Inl x)
    with assms fk have "r = Some x" "d' = d" "tr' = tr1" by (simp_all add: read_by_name_def)
    moreover from fo Inl have "reports_failure (Some x) evs1" by (simp add: fetch_ok_Inl)
    ultimately show ?thesis using tr1 by (intro exI[of _ evs1]) (simp add: run_ok_def)
  next
    case (Inr totalKeys)
    with fo have a1: "all_ok evs1" by (simp add: fetch_ok_Inr)
    let ?m = "if v \<noteq> [] then filter (\<lambda>keyData. Name keyData = v) totalKeys else totalKeys"
    obtain kr tr2 where km: "key_maps w tr1 ?m [] = (kr, tr2)" by (cases "key_maps w tr1 ?m []")
    from key_maps_returns[OF km] obtain evs2 where tr2: "tr2 = tr1 @ evs2"
      and mo: "maps_ok ?m [] evs2 kr" by blast
    consider (a) "length totalKeys = 0" | (b) "length totalKeys \<noteq> 0" "length ?m = 0"
      | (c) "length totalKeys \<noteq> 0" "length ?m \<noteq> 0" by blast
    then show ?thesis
    proof cases
      case a
      with assms fk Inr have "r \<noteq> None" "d' = d" "tr' = tr1" by (auto simp: read_by_name_def)
      then show ?thesis using tr1 a1
        by (intro exI[of _ evs1]) (auto simp: run_ok_def all_ok_reports)
    next
      case b
      with assms fk Inr have "r \<noteq> None" "d' = d" "tr' = tr1"
        by (auto simp: read_by_name_def Let_def)
      then show ?thesis using tr1 a1
        by (intro exI[of _ evs1]) (auto simp: run_ok_def all_ok_reports)
    next
      case c
      show ?thesis
      proof (cases kr)
        case (Inl x)
        with assms fk \<open>fr = Inr totalKeys\<close> km c have "r = Some x" "d' = d" "tr' = tr2"
          by (simp_all add: read_by_name_def Let_def)
        moreover from mo Inl have "reports_failure (Some x) evs2" by (simp add: maps_ok_Inl)
        with a1 have "reports_failure (Some x) (evs1 @ evs2)" by (rule reports_append)
        ultimately show ?thesis using tr1 tr2
          by (intro exI[of _ "evs1 @ evs2"]) (simp add: run_ok_def)
      next
        case (Inr keyMap)
        with assms fk \<open>fr = Inr totalKeys\<close> km c
        have "r = None" "d' = store_keys instanceID keyMap d" "tr' = tr2"
          by (simp_all add: read_by_name_def Let_def)
        moreover from mo Inr have "all_ok evs2" by (simp add: maps_ok_Inr)
        with a1 have "reports_failure None (evs1 @ evs2)"
          by (intro all_ok_reports) (simp add: all_ok_def)
        ultimately show ?thesis using tr1 tr2
          by (intro exI[of _ "evs1 @ evs2"]) (simp add: store_keys_run_ok)
      qed
    qed
  qed
qed

lemma recorded_append:
  "recorded w n (xs @ ys) = (recorded w n xs \<and> recorded w (n + length xs) ys)"
  by (induction xs arbitrary: n) simp_all

lemma answered_recorded: "answered w n evs \<Longrightarrow> recorded w n evs"
  by (induction w n evs rule: answered.induct) simp_all

lemma fetch_keys_recorded:
  assumes "fetch_keys w L tr = Some (fr, tr')"
  shows "\<exists>evs. tr' = tr @ evs \<and> recorded w (length tr) evs"
proof (cases "L = 0")
  case True
  let ?a = "GetKeys_answer w (length tr) 0 0"
  from assms True have "tr' = tr @ [GetKeysEv 0 0 ?a]"
    by (cases ?a) (simp_all add: fetch_keys_def GetKeys_def)
  moreover have "recorded w (length tr) [GetKeysEv 0 0 ?a]" by simp
  ultimately show ?thesis by blast
next
  case False
  with assms have run: "fetch_loop w L 0 [] tr = Some (fr, tr')" by (simp add: fetch_keys_def)
  then have pos: "0 < L" by (rule fetch_loop_returns_lt)
  from fetch_loop_pages[of 0 L w "[]" tr] pos
  obtain r0 evs where "fetch_loop w L 0 [] tr = Some (r0, tr @ evs)" "answered w (length tr) evs"
    by auto
  with run have "tr' = tr @ evs" "recorded w (length tr) evs" by (simp_all add: answered_recorded)
  then show ?thesis by blast
qed

lemma key_maps_recorded:
  "key_maps w tr keys acc = (kr, tr') \<Longrightarrow> \<exists>evs. tr' = tr @ evs \<and> recorded w (length tr) evs"
proof (induction keys arbitrary: tr acc)
  case Nil
  then show ?case by simp
next
  case (Cons key keys)
  let ?ev = "GetPoliciesEv (ID key) (GetPolicies_answer w (length tr) (ID key))"
  obtain r1 tr1 where ki: "key_instance w tr key = (r1, tr1)" by (cases "key_instance w tr key")
  from key_instance_returns[OF ki] have tr1: "tr1 = tr @ [?ev]" by simp
  have re: "recorded w (length tr) [?ev]" by simp
  show ?case
  proof (cases r1)
    case (Inl x)
    with Cons.prems ki have "tr' = tr1" by simp
    with tr1 re show ?thesis by blast
  next
    case (Inr entry)
    with Cons.prems ki have "key_maps w tr1 keys (acc @ [entry]) = (kr, tr')" by simp
    from Cons.IH[OF this] obtain evs where e: "tr' = tr1 @ evs" "recorded w (length tr1) evs"
      by blast
    with tr1 have "tr' = tr @ (?ev # evs)" "recorded w (length tr) (?ev # evs)" by simp_all
    then show ?thesis by blast
  qed
qed

lemma read_one_recorded:
  assumes "read_one w instanceID ident d tr = (r, d', tr')"
  shows "\<exists>evs. tr' = tr @ evs \<and> recorded w (length tr) evs"
proof -
  let ?a = "GetKey_answer w (length tr) ident"
  let ?ev = "GetKeyEv ident ?a"
  show ?thesis
  proof (cases ?a)
    case (Inl e)
    with assms have "tr' = tr @ [?ev]" by (simp add: read_one_def GetKey_def)
    moreover have "recorded w (length tr) [?ev]" by simp
    ultimately show ?thesis by blast
  next
    case (Inr key)
    let ?ev2 = "GetPoliciesEv (ID key) (GetPolicies_answer w (Suc (length tr)) (ID key))"
    obtain r1 tr1 where ki: "key_instance w (tr @ [?ev]) key = (r1, tr1)"
      by (cases "key_instance w (tr @ [?ev]) key")
    from key_instance_returns[OF ki] have tr1: "tr1 = tr @ [?ev, ?ev2]" by simp
    from assms Inr ki have "tr' = tr1"
      by (cases r1) (simp_all add: read_one_def GetKey_def)
    with tr1 have "tr' = tr @ [?ev, ?ev2]" by simp
    moreover have "recorded w (length tr) [?ev, ?ev2]" by simp
    ultimately show ?thesis by blast
  qed
qed

lemma read_by_name_recorded:
  assumes "read_by_name w instanceID v d tr = Some (r, d', tr')"
  shows "\<exists>evs. tr' = tr @ evs \<and> recorded w (length tr) evs"
proof -
  from assms obtain fr tr1 where fk: "fetch_keys w (Get_int d ''limit'') tr = Some (fr, tr1)"
    by (cases "fetch_keys w (Get_int d ''limit'') tr") (auto simp: read_by_name_def)
  from fetch_keys_recorded[OF fk] obtain evs1 where tr1: "tr1 = tr @ evs1"
    and r1: "recorded w (length tr) evs1" by blast
  from read_by_name_after_fetch[OF fk, of instanceID v]
  obtain r0 d0 pol where rb: "read_by_name w instanceID v d tr = Some (r0, d0, tr1 @ pol)" by blast
  with assms have t: "tr' = tr1 @ pol" by simp
  show ?thesis
  proof (cases "tr' = tr1")
    case True
    with tr1 r1 show ?thesis by blast
  next
    case False
    with assms fk obtain totalKeys where fr: "fr = Inr totalKeys"
      by (cases fr) (simp_all add: read_by_name_def)
    let ?m = "if v \<noteq> [] then filter (\<lambda>keyData. Name keyData = v) totalKeys else totalKeys"
    obtain kr tr2 where km: "key_maps w tr1 ?m [] = (kr, tr2)" by (cases "key_maps w tr1 ?m []")
    from assms fk fr km False have "tr' = tr2"
      by (cases kr) (auto simp: read_by_name_def Let_def split: if_splits)
    with key_maps_recorded[OF km] obtain evs2 where "tr' = tr1 @ evs2" "recorded w (length tr1) evs2"
      by blast
    with tr1 r1 have "tr' = tr @ (evs1 @ evs2)" "recorded w (length tr) (evs1 @ evs2)"
      by (simp_all add: recorded_append)
    then show ?thesis by blast
  qed
qed

lemma kms_read_returns:
  assumes "dataSourceIBMKMSKeyRead w d = Some (r, d', tr)"
  shows "recorded w 0 tr \<and> reports_failure r tr
         \<and> run_ok (crn_instance_id (Get_string d ''instance_id'')) d r d'"
proof -
  let ?iid = "crn_instance_id (Get_string d ''instance_id'')"
  show ?thesis
  proof (cases "KeyManagementAPI w")
    case (Some err)
    with assms have "r = Some err" "d' = d" "tr = []"
      by (auto simp: dataSourceIBMKMSKeyRead_def)
    then show ?thesis by (simp add: reports_Nil run_ok_def)
  next
    case k: None
    show ?thesis
    proof (cases "ResourceControllerV2API w")
      case (Some err)
      with assms k have "r = Some err" "d' = d" "tr = []"
        by (auto simp: dataSourceIBMKMSKeyRead_def Let_def)
      then show ?thesis by (simp add: reports_Nil run_ok_def)
    next
      case c: None
      obtain instanceData resp err where
        g: "GetResourceInstance_answer w 0 ?iid = (instanceData, resp, err)"
        by (cases "GetResourceInstance_answer w 0 ?iid")
      let ?ev0 = "GetResourceInstanceEv ?iid instanceData resp err"
      have rec0: "recorded w 0 [?ev0]" using g by simp
      show ?thesis
      proof (cases "err \<noteq> None \<or> instanceData = None")
        case True
        with assms k c g have res: "r = Some (retrieving_failed err resp)" "d' = d" "tr = [?ev0]"
          by (auto simp: dataSourceIBMKMSKeyRead_def Let_def GetResourceInstance_def)
        have "reports_failure r ([] @ [?ev0])"
          unfolding reports_snoc using res(1)
          by (cases err) (simp_all add: all_ok_def retrieving_failed_def verb_s_def)
        with res rec0 show ?thesis by (simp add: run_ok_def)
      next
        case False
        then obtain inst where i: "instanceData = Some inst" and e: "err = None" by auto
        have ok0: "all_ok [?ev0]" using e by (simp add: all_ok_def)
        show ?thesis
        proof (cases "KmsEndpointURL w (Get_string d ''endpoint_type'') (Extensions inst)")
          case (Inl x)
          with assms k c g i e have res: "r = Some x" "d' = d" "tr = [?ev0]"
            by (auto simp: dataSourceIBMKMSKeyRead_def Let_def GetResourceInstance_def)
          with rec0 ok0 show ?thesis by (simp add: run_ok_def all_ok_reports)
        next
          case (Inr url)
          have fin: "\<And>evs. tr = [?ev0] @ evs \<Longrightarrow> recorded w (length [?ev0]) evs
                      \<Longrightarrow> reports_failure r evs \<Longrightarrow> run_ok ?iid d r d'
                      \<Longrightarrow> recorded w 0 tr \<and> reports_failure r tr \<and> run_ok ?iid d r d'"
          proof -
            fix evs
            assume t: "tr = [?ev0] @ evs" and "recorded w (length [?ev0]) evs"
              and rf: "reports_failure r evs" and ro: "run_ok ?iid d r d'"
            then have "recorded w 0 tr" using g by simp
            moreover from ok0 rf have "reports_failure r ([?ev0] @ evs)" by (rule reports_append)
            ultimately show "recorded w 0 tr \<and> reports_failure r tr \<and> run_ok ?iid d r d'"
              using t ro by simp
          qed
          show ?thesis
          proof (cases "Get_string d ''key_name'' \<noteq> []")
            case True
            with assms k c g i e Inr
            have rb: "read_by_name w ?iid (Get_string d ''key_name'') d [?ev0] = Some (r, d', tr)"
              by (simp add: dataSourceIBMKMSKeyRead_def Let_def GetResourceInstance_def GetOk_def)
            from read_by_name_returns[OF rb] obtain evs where
              a: "tr = [?ev0] @ evs" "reports_failure r evs" "run_ok ?iid d r d'" by blast
            from read_by_name_recorded[OF rb] obtain evs' where
              b: "tr = [?ev0] @ evs'" "recorded w (length [?ev0]) evs'" by blast
            from a(1) b(1) have "evs' = evs" by simp
            with a b show ?thesis by (intro fin[of evs]) simp_all
          next
            case False
            let ?ident = "if Get_string d ''key_id'' \<noteq> [] then Get_string d ''key_id''
                          else Get_string d ''alias''"
            from False assms k c g i e Inr
            have ro: "read_one w ?iid ?ident d [?ev0] = (r, d', tr)"
              by (auto simp: dataSourceIBMKMSKeyRead_def Let_def GetResourceInstance_def GetOk_def
                  split: if_splits)
            from read_one_returns[OF ro] obtain evs where
              a: "tr = [?ev0] @ evs" "reports_failure r evs" "run_ok ?iid d r d'" by blast
            from read_one_recorded[OF ro] obtain evs' where
              b: "tr = [?ev0] @ evs'" "recorded w (length [?ev0]) evs'" by blast
            from a(1) b(1) have "evs' = evs" by simp
            with a b show ?thesis by (intro fin[of evs]) simp_all
          qed
        qed
      qed
    qed
  qed
qed

lemma Split_no_sep: "x \<in> set (Split s c) \<Longrightarrow> c \<notin> set x"
proof (induction s arbitrary: x)
  case Nil
  then show ?case by simp
next
  case (Cons a s)
  then show ?case by (cases "Split s c") (auto split: if_splits)
qed

lemma Split_single: "c \<notin> set s \<Longrightarrow> Split s c = [s]"
  by (induction s) auto

lemma Split_segment_differs:
  assumes "3 < length (Split s c)"
  shows "Split s c ! (length (Split s c) - 3) \<noteq> s"
proof
  assume eq: "Split s c ! (length (Split s c) - 3) = s"
  from assms have "Split s c ! (length (Split s c) - 3) \<in> set (Split s c)" by simp
  then have "c \<notin> set (Split s c ! (length (Split s c) - 3))" by (rule Split_no_sep)
  with eq have "c \<notin> set s" by simp
  then have "Split s c = [s]" by (rule Split_single)
  with assms show False by simp
qed

lemma run_ok_success:
  "run_ok instanceID d None d' \<Longrightarrow>
     rid d' = Some instanceID \<and> attrs d' ''instance_id'' = Some (VStr instanceID)
     \<and> (\<exists>keyMap. attrs d' ''keys'' = Some (VList keyMap))"
  by (auto simp: run_ok_def store_keys_def d_Set_def SetId_def split: option.splits tfvalue.splits)

lemmas kms_run_defs = dataSourceIBMKMSKeyRead_def GetResourceInstance_def GetOk_def Get_string_def
  Get_int_def read_by_name_def read_one_def fetch_keys_def GetKeys_def GetKey_def GetPolicies_def
  key_instance_def key_fields_def store_keys_def d_Set_def SetId_def crn_instance_id_def
  get_keys_failed_def policies_failed_def retrieving_failed_def verb_s_def
  no_keys_in_instance_def no_keys_with_name_def

lemma example_crn_split:
  "Split example_crn CHR '':'' =
     [''crn'', ''v1'', ''bluemix'', ''public'', ''kms'', ''us-south'', ''a/acct'', ''guid-1'', [], []]"
  by (simp add: example_crn_def)

lemma crn_name_run:
  "\<exists>d' tr. dataSourceIBMKMSKeyRead example_world crn_name_config = Some (None, d', tr)"
  by (simp add: kms_run_defs Let_def example_world_def crn_name_config_def example_crn_split
        example_key_def)



lemma crn_name_instance: "crn_instance_id (Get_string crn_name_config ''instance_id'') = ''guid-1''"
  by (simp add: crn_name_config_def Get_string_def crn_instance_id_def example_crn_split)



section \<open>Pagination in the handler\<close>

text \<open>In the world of full pages a limit of 450 makes three calls: 200, 200 and 50 keys.\<close>

lemma full_pages_calls:
  "map_option (\<lambda>(r, tr). map requested tr) (fetch_keys full_pages_world 450 []) = Some [200, 200, 50]"
  by (simp add: fetch_keys_def fetch_loop.simps GetKeys_def pageSize_def full_pages_world_def)



section \<open>The instance ID stored back\<close>

text \<open>
  C8. Whenever the handler returns: if it returns without error, \<open>instance_id\<close> holds the
  instance ID the handler worked with, which is the third-from-last segment of the
  configured value when that has more than three colon-separated segments, and then
  differs from the configured value, and is the configured value itself when it has three
  segments or fewer; if it returns an error, the resource data is as it was.
\<close>

theorem kms_read_stores_instance_id:
  assumes "dataSourceIBMKMSKeyRead w d = Some (r, d', tr)"
  shows "(r = None \<longrightarrow>
            attrs d' ''instance_id'' =
              Some (VStr (if 3 < length (Split (Get_string d ''instance_id'') CHR '':'')
                          then Split (Get_string d ''instance_id'') CHR '':''
                                 ! (length (Split (Get_string d ''instance_id'') CHR '':'') - 3)
                          else Get_string d ''instance_id''))
          \<and> (3 < length (Split (Get_string d ''instance_id'') CHR '':'')
               \<longrightarrow> attrs d' ''instance_id'' \<noteq> Some (VStr (Get_string d ''instance_id''))))
       \<and> (r \<noteq> None \<longrightarrow> d' = d)"
proof -
  let ?s = "Get_string d ''instance_id''"
  from kms_read_returns[OF assms] have ro: "run_ok (crn_instance_id ?s) d r d'" by simp
  have a: "r \<noteq> None \<longrightarrow> d' = d" using ro by (auto simp: run_ok_def)
  have b: "r = None \<longrightarrow> attrs d' ''instance_id'' = Some (VStr (crn_instance_id ?s))"
    using ro run_ok_success by blast
  have c: "3 < length (Split ?s CHR '':'') \<longrightarrow> crn_instance_id ?s \<noteq> ?s"
    using Split_segment_differs[of ?s "CHR '':''"] by (simp add: crn_instance_id_def Let_def)
  from a b c show ?thesis by (auto simp: crn_instance_id_def Let_def)
qed

theorem kms_read_stores_instance_id_witness:
  "\<exists>d' tr. dataSourceIBMKMSKeyRead example_world crn_name_config = Some (None, d', tr)
      \<and> attrs d' ''instance_id'' = Some (VStr ''guid-1'')
      \<and> attrs d' ''instance_id'' \<noteq> Some (VStr example_crn)"
proof -
  from crn_name_run obtain d' tr where
    run: "dataSourceIBMKMSKeyRead example_world crn_name_config = Some (None, d', tr)" by blast
  have s: "Get_string crn_name_config ''instance_id'' = example_crn"
    by (simp add: crn_name_config_def Get_string_def)
  from kms_read_stores_instance_id [OF run]
  have "attrs d' ''instance_id'' = Some (VStr ''guid-1'')"
    unfolding s by (simp add: example_crn_split)
  moreover have "''guid-1'' \<noteq> example_crn" by (simp add: example_crn_def)
  ultimately show ?thesis using run by auto
qed

text \<open>
  A read that fails stores nothing: with a CRN configured and \<open>GetResourceInstance\<close> failing,
  the handler returns the error and \<open>instance_id\<close> is still the CRN.
\<close>

theorem kms_failed_read_keeps_instance_id:
  "dataSourceIBMKMSKeyRead no_instance_world crn_name_config =
     Some (Some ''[ERROR] Error retrieving resource instance: not found with resp code: 404'',
           crn_name_config, [GetResourceInstanceEv ''guid-1'' None ''404'' (Some ''not found'')])
   \<and> attrs crn_name_config ''instance_id'' = Some (VStr example_crn)
   \<and> 3 < length (Split example_crn CHR '':'')"
  by (simp add: kms_run_defs Let_def no_instance_world_def example_world_def crn_name_config_def
        example_crn_split)

section \<open>Reading keys by name\<close>




section \<open>The resource ID\<close>

lemmas project_run_defs = dataSourceIbmProjectConfigRead_def set_attributes_def checked_Set_def
  set_maps_def tf_error_def SetId_def d_Set_def Get_string_def str_ptr_def bool_ptr_def put_if_def
  dataSourceIbmProjectConfigOutputValueToMap_def

lemma kms_success_instance:
  assumes "dataSourceIBMKMSKeyRead w d = Some (None, d', tr)"
  shows "\<exists>inst resp. GetResourceInstance_answer w 0 (crn_instance_id (Get_string d ''instance_id''))
                        = (Some inst, resp, None)"
  using assms
  by (auto simp: dataSourceIBMKMSKeyRead_def Let_def GetResourceInstance_def
      split: option.splits prod.splits sum.splits if_splits)

lemma example_project_run:
  "\<exists>d'. dataSourceIbmProjectConfigRead example_project_world example_project_request
          = Returned ([], d')"
  by (simp add: project_run_defs example_project_world_def example_project_request_def
        example_project_config_def)

text \<open>
  C4. A read that returns without error or diagnostics has set the resource ID: the
  capacity data source to \<open><cloudInstanceID>/<storageType>\<close>, the project data source to
  \<open><projectID>/<configID>\<close>, and the key-protect data source to the instance ID it worked
  with (the third-from-last segment of a CRN), which is the ID \<open>GetResourceInstance\<close> was
  asked for and answered without error. The ID is the string given to \<open>SetId\<close>; a success
  return on which \<open>SetId\<close> was not called does not exist.
\<close>

theorem read_sets_resource_id:
  "(dataSourceIBMPIStorageTypeCapacityRead pw pd = Returned ([], pd') \<longrightarrow>
      rid pd' = Some (Get_string pd ''pi_cloud_instance_id'' @ ''/'' @ Get_string pd ''pi_storage_type''))
   \<and> (dataSourceIbmProjectConfigRead jw jd = Returned ([], jd') \<longrightarrow>
      rid jd' = Some (Get_string jd ''project_id'' @ ''/'' @ Get_string jd ''project_config_id''))
   \<and> (dataSourceIBMKMSKeyRead kw kd = Some (None, kd', tr) \<longrightarrow>
      rid kd' = Some (crn_instance_id (Get_string kd ''instance_id''))
      \<and> (\<exists>inst resp. GetResourceInstance_answer kw 0 (crn_instance_id (Get_string kd ''instance_id''))
                         = (Some inst, resp, None)))"
proof (intro conjI impI)
  assume "dataSourceIBMPIStorageTypeCapacityRead pw pd = Returned ([], pd')"
  from pi_read_returns[OF this]
  show "rid pd' = Some (Get_string pd ''pi_cloud_instance_id'' @ ''/'' @ Get_string pd ''pi_storage_type'')"
    by (auto simp: PICloudInstanceId_def PITypeName_def)
next
  assume "dataSourceIbmProjectConfigRead jw jd = Returned ([], jd')"
  from project_read_returns[OF this]
  show "rid jd' = Some (Get_string jd ''project_id'' @ ''/'' @ Get_string jd ''project_config_id'')"
    by blast
next
  assume "dataSourceIBMKMSKeyRead kw kd = Some (None, kd', tr)"
  from kms_read_returns[OF this]
  have "run_ok (crn_instance_id (Get_string kd ''instance_id'')) kd None kd'" by simp
  then show "rid kd' = Some (crn_instance_id (Get_string kd ''instance_id''))"
    using run_ok_success by blast
next
  assume "dataSourceIBMKMSKeyRead kw kd = Some (None, kd', tr)"
  then show "\<exists>inst resp. GetResourceInstance_answer kw 0 (crn_instance_id (Get_string kd ''instance_id''))
                         = (Some inst, resp, None)"
    by (rule kms_success_instance)
qed

theorem read_sets_resource_id_witness:
  "\<exists>pd' jd' kd' tr.
      dataSourceIBMPIStorageTypeCapacityRead example_pi_world example_pi_config = Returned ([], pd')
    \<and> rid pd' = Some ''inst-1/tier1''
    \<and> dataSourceIbmProjectConfigRead example_project_world example_project_request = Returned ([], jd')
    \<and> rid jd' = Some ''proj-1/cfg-1''
    \<and> dataSourceIBMKMSKeyRead example_world crn_name_config = Some (None, kd', tr)
    \<and> rid kd' = Some ''guid-1''"
proof -
  have p: "dataSourceIBMPIStorageTypeCapacityRead example_pi_world example_pi_config
             = Returned ([], example_pi_state)"
    by (simp add: dataSourceIBMPIStorageTypeCapacityRead_def example_pi_world_def
          example_pi_config_def example_pi_state_def example_capacity_def Get_string_def
          PICloudInstanceId_def PITypeName_def msa_data_def sp_data_def SetId_def d_Set_def
          Attr_defs)
  from example_project_run obtain jd' where
    j: "dataSourceIbmProjectConfigRead example_project_world example_project_request
          = Returned ([], jd')" by blast
  from crn_name_run obtain kd' tr where
    k: "dataSourceIBMKMSKeyRead example_world crn_name_config = Some (None, kd', tr)" by blast
  note t = read_sets_resource_id [of example_pi_world example_pi_config example_pi_state
      example_project_world example_project_request jd' example_world crn_name_config kd' tr]
  from t p have "rid example_pi_state = Some ''inst-1/tier1''"
    by (simp add: example_pi_config_def Get_string_def)
  moreover from t j have "rid jd' = Some ''proj-1/cfg-1''"
    by (simp add: example_project_request_def Get_string_def)
  moreover from t k have "rid kd' = Some ''guid-1''"
    by (simp add: crn_name_instance)
  ultimately have "rid example_pi_state = Some ''inst-1/tier1''" "rid jd' = Some ''proj-1/cfg-1''"
    "rid kd' = Some ''guid-1''" by simp_all
  with p j k show ?thesis by blast
qed

section \<open>Output values\<close>

text \<open>
  When \<open>json.Marshal\<close> accepts the value, the map holds \<open>name\<close>, \<open>description\<close> if there is one
  and \<open>value_json\<close>, and no \<open>value\<close>.
\<close>

lemma output_value_marshal_ok:
  assumes "ov_Value model \<noteq> VNil" and "json_Marshal w (ov_Value model) = (jsonStr, None)"
  shows "dataSourceIbmProjectConfigOutputValueToMap w model =
           Returned (Inr (VMap (put_if ''description'' (ov_Description model)
                                  [(''name'', str_ptr (ov_Name model))]
                                @ [(''value_json'', VStr (stringify w (ov_Value model)))])))"
  using assms by (simp add: dataSourceIbmProjectConfigOutputValueToMap_def)



section \<open>Failing SDK calls\<close>










section \<open>The schema\<close>

lemmas schema_defs = schema_accepts_def attribute_accepts_def DataSourceIBMKMSkey_def plain_def
  ValidateAllowedStringValues_def

text \<open>
  C7. A configuration that the schema of \<open>ibm_kms_key\<close> accepts has exactly one of \<open>alias\<close>,
  \<open>key_name\<close> and \<open>key_id\<close> configured, and its \<open>endpoint_type\<close>, if configured, is \<open>public\<close> or
  \<open>private\<close>; an \<open>endpoint_type\<close> that is not configured reads as \<open>public\<close>. The accepted
  configurations are exactly those with a string \<open>instance_id\<close>, values of the declared
  types, exactly one of the three key attributes, an allowed \<open>endpoint_type\<close> and no value
  for the computed \<open>keys\<close>.
\<close>

theorem kms_schema_enforces:
  "(schema_accepts DataSourceIBMKMSkey cfg \<longrightarrow>
      configured cfg [''alias'', ''key_name'', ''key_id''] = 1
    \<and> (cfg ''endpoint_type'' = None \<or> cfg ''endpoint_type'' = Some (VStr ''public'')
         \<or> cfg ''endpoint_type'' = Some (VStr ''private'')))
   \<and> (cfg ''endpoint_type'' = None \<longrightarrow>
        read_attribute DataSourceIBMKMSkey cfg ''endpoint_type'' = Some (VStr ''public''))
   \<and> (schema_accepts DataSourceIBMKMSkey cfg \<longleftrightarrow>
        (\<exists>s. cfg ''instance_id'' = Some (VStr s))
      \<and> (cfg ''limit'' = None \<or> (\<exists>n. cfg ''limit'' = Some (VInt n)))
      \<and> (cfg ''key_id'' = None \<or> (\<exists>s. cfg ''key_id'' = Some (VStr s)))
      \<and> (cfg ''key_name'' = None \<or> (\<exists>s. cfg ''key_name'' = Some (VStr s)))
      \<and> (cfg ''alias'' = None \<or> (\<exists>s. cfg ''alias'' = Some (VStr s)))
      \<and> configured cfg [''alias'', ''key_name'', ''key_id''] = 1
      \<and> (cfg ''endpoint_type'' = None \<or> cfg ''endpoint_type'' = Some (VStr ''public'')
           \<or> cfg ''endpoint_type'' = Some (VStr ''private''))
      \<and> cfg ''keys'' = None)"
proof -
  have ty: "\<And>t v. has_type TypeString v = (\<exists>s. v = VStr s)"
    "\<And>v. has_type TypeInt v = (\<exists>n. v = VInt n)"
    by (auto simp: has_type_def split: tfvalue.splits)
  have iff: "schema_accepts DataSourceIBMKMSkey cfg \<longleftrightarrow>
        (\<exists>s. cfg ''instance_id'' = Some (VStr s))
      \<and> (cfg ''limit'' = None \<or> (\<exists>n. cfg ''limit'' = Some (VInt n)))
      \<and> (cfg ''key_id'' = None \<or> (\<exists>s. cfg ''key_id'' = Some (VStr s)))
      \<and> (cfg ''key_name'' = None \<or> (\<exists>s. cfg ''key_name'' = Some (VStr s)))
      \<and> (cfg ''alias'' = None \<or> (\<exists>s. cfg ''alias'' = Some (VStr s)))
      \<and> configured cfg [''alias'', ''key_name'', ''key_id''] = 1
      \<and> (cfg ''endpoint_type'' = None \<or> cfg ''endpoint_type'' = Some (VStr ''public'')
           \<or> cfg ''endpoint_type'' = Some (VStr ''private''))
      \<and> cfg ''keys'' = None"
    unfolding schema_defs
    by (cases "cfg ''instance_id''"; cases "cfg ''limit''"; cases "cfg ''key_id''";
        cases "cfg ''key_name''"; cases "cfg ''alias''"; cases "cfg ''endpoint_type''";
        cases "cfg ''keys''")
       (auto simp: ty)
  have dflt: "cfg ''endpoint_type'' = None \<longrightarrow>
        read_attribute DataSourceIBMKMSkey cfg ''endpoint_type'' = Some (VStr ''public'')"
    by (simp add: read_attribute_def DataSourceIBMKMSkey_def plain_def)
  from iff dflt show ?thesis by blast
qed

theorem kms_schema_enforces_witness:
  "schema_accepts DataSourceIBMKMSkey private_name_config
   \<and> configured private_name_config [''alias'', ''key_name'', ''key_id''] = 1
   \<and> \<not> schema_accepts DataSourceIBMKMSkey (private_name_config(''key_id'' \<mapsto> VStr ''key-1''))
   \<and> \<not> schema_accepts DataSourceIBMKMSkey (private_name_config(''endpoint_type'' \<mapsto> VStr ''direct''))
   \<and> read_attribute DataSourceIBMKMSkey
         [''instance_id'' \<mapsto> VStr ''guid-1'', ''key_name'' \<mapsto> VStr ''mykey''] ''endpoint_type''
       = Some (VStr ''public'')"
proof -
  have a: "schema_accepts DataSourceIBMKMSkey private_name_config
           \<and> configured private_name_config [''alias'', ''key_name'', ''key_id''] = 1"
    using kms_schema_enforces [of private_name_config]
    by (simp add: private_name_config_def configured_def)
  have b: "\<not> schema_accepts DataSourceIBMKMSkey (private_name_config(''key_id'' \<mapsto> VStr ''key-1''))"
    using kms_schema_enforces [of "private_name_config(''key_id'' \<mapsto> VStr ''key-1'')"]
    by (simp add: private_name_config_def configured_def)
  have c: "\<not> schema_accepts DataSourceIBMKMSkey
               (private_name_config(''endpoint_type'' \<mapsto> VStr ''direct''))"
    using kms_schema_enforces [of "private_name_config(''endpoint_type'' \<mapsto> VStr ''direct'')"]
    by (simp add: private_name_config_def configured_def)
  have d: "read_attribute DataSourceIBMKMSkey
         [''instance_id'' \<mapsto> VStr ''guid-1'', ''key_name'' \<mapsto> VStr ''mykey''] ''endpoint_type''
       = Some (VStr ''public'')"
    using kms_schema_enforces [of "[''instance_id'' \<mapsto> VStr ''guid-1'', ''key_name'' \<mapsto> VStr ''mykey'']"]
    by simp
  from a b c d show ?thesis by blast
qed

end
